theory Spec2Isabelle
  imports Complex_Main
begin

section \<open>Outcomes\<close>

text \<open>
  A call either returns a value or throws. \<open>Thrown\<close> carries the message of the error; a
  \<^verbatim>\<open>TypeError\<close> raised by the language itself is \<open>Thrown ''TypeError''\<close>.
\<close>

datatype 'a outcome = Returned 'a | Thrown string

definition thrown :: "'a outcome \<Rightarrow> bool" where
  "thrown r = (case r of Thrown _ \<Rightarrow> True | Returned _ \<Rightarrow> False)"

section \<open>The comparison helpers of \<^verbatim>\<open>abstract/comparable.ts\<close>\<close>

text \<open>
  The helpers take two operands of any type \<open>T\<close> and look at them through the
  \<^verbatim>\<open>Comparable\<close> interface, so an operand is any value of the language: \<^verbatim>\<open>undefined\<close>,
  \<^verbatim>\<open>null\<close>, a boolean, a number, a big integer, a string, a symbol or an object. A number
  is an IEEE double as far as the relational operators see it: not-a-number, the two
  infinities, or a finite value (the two zeros compare alike). Symbols are told apart by a
  number.
\<close>

datatype jsnum = NaN | NegInf | Fin real | PosInf

datatype prim =
  PUndef | PNull | PBool bool | PNum jsnum | PBig int | PStr string | PSym nat

datatype 'o jsval = Prim prim | Obj 'o

text \<open>
  What an object does when the helpers touch it: whether the value of its property
  \<^verbatim>\<open>NovaFlags.COMPARABLE\<close> is truthy, its four methods (absent when the property is not a
  function), and the primitive that the relational operators convert it to; a method and
  the conversion may throw, and an object answers alike each time it is asked.
  \<^verbatim>\<open>equality\<close> is imported from \<^verbatim>\<open>./equatable\<close>;
  \<open>strToNumber\<close> and \<open>strToBigInt\<close> are the language's conversions of a string to a
  number and to a big integer. These three are taken as given.
\<close>

record 'o objsem =
  hasFlag :: "'o \<Rightarrow> bool"
  lessThan_m :: "'o \<Rightarrow> ('o jsval \<Rightarrow> bool outcome) option"
  lessThanOrEqual_m :: "'o \<Rightarrow> ('o jsval \<Rightarrow> bool outcome) option"
  greaterThan_m :: "'o \<Rightarrow> ('o jsval \<Rightarrow> bool outcome) option"
  greaterThanOrEqual_m :: "'o \<Rightarrow> ('o jsval \<Rightarrow> bool outcome) option"
  toPrimitive :: "'o \<Rightarrow> prim outcome"
  strToNumber :: "string \<Rightarrow> jsnum"
  strToBigInt :: "string \<Rightarrow> int option"
  equality :: "'o jsval \<Rightarrow> 'o jsval \<Rightarrow> bool outcome"

text \<open>
  \<^verbatim>\<open>x[NovaFlags.COMPARABLE]\<close>, as a truth value. Reading a property of \<^verbatim>\<open>undefined\<close> or of
  \<^verbatim>\<open>null\<close> throws a \<^verbatim>\<open>TypeError\<close>; on any other primitive the read goes to the built-in
  prototype, which has no such property, and gives \<^verbatim>\<open>undefined\<close>.
\<close>

definition nullish :: "'o jsval \<Rightarrow> bool" where
  "nullish v \<longleftrightarrow> v = Prim PUndef \<or> v = Prim PNull"

definition comparableFlag :: "'o objsem \<Rightarrow> 'o jsval \<Rightarrow> bool outcome" where
  "comparableFlag sem v =
     (case v of
        Obj ob \<Rightarrow> Returned (hasFlag sem ob)
      | Prim p \<Rightarrow> if nullish v then Thrown ''TypeError'' else Returned False)"

text \<open>
  \<^verbatim>\<open>lx[NovaFlags.COMPARABLE] && rx[NovaFlags.COMPARABLE]\<close>, the test that opens each helper:
  the right operand is read only when the left one carries the flag.
\<close>

definition bothComparable :: "'o objsem \<Rightarrow> 'o jsval \<Rightarrow> 'o jsval \<Rightarrow> bool outcome" where
  "bothComparable sem lx rx =
     (case comparableFlag sem lx of
        Thrown err \<Rightarrow> Thrown err
      | Returned False \<Rightarrow> Returned False
      | Returned True \<Rightarrow> comparableFlag sem rx)"

text \<open>\<^verbatim>\<open>lx.m\<close> for one of the four methods \<open>m\<close>: a primitive has none.\<close>

definition methodOf ::
  "('o \<Rightarrow> ('o jsval \<Rightarrow> bool outcome) option) \<Rightarrow> 'o jsval \<Rightarrow> ('o jsval \<Rightarrow> bool outcome) option" where
  "methodOf m v = (case v of Obj ob \<Rightarrow> m ob | Prim _ \<Rightarrow> None)"

text \<open>
  The relational operators of the language. \<open>num_lt\<close> is \<^verbatim>\<open><\<close> on two numbers, with the
  answer \<open>None\<close> (undefined) when either is not-a-number; \<open>str_lt\<close> compares two strings
  unit by unit. Before they are compared, operands are converted to primitives, left
  operand first, and then, unless both are strings, to numbers or big integers; a symbol
  has no such conversion.
\<close>

fun num_lt :: "jsnum \<Rightarrow> jsnum \<Rightarrow> bool option" where
  "num_lt NaN _ = None"
| "num_lt _ NaN = None"
| "num_lt NegInf NegInf = Some False"
| "num_lt NegInf _ = Some True"
| "num_lt _ NegInf = Some False"
| "num_lt PosInf _ = Some False"
| "num_lt _ PosInf = Some True"
| "num_lt (Fin a) (Fin b) = Some (a < b)"

fun str_lt :: "string \<Rightarrow> string \<Rightarrow> bool" where
  "str_lt [] [] = False"
| "str_lt [] (_ # _) = True"
| "str_lt (_ # _) [] = False"
| "str_lt (a # as) (b # bs) =
     (if (of_char a :: nat) < of_char b then True
      else if (of_char b :: nat) < of_char a then False
      else str_lt as bs)"

datatype numeric = Number jsnum | BigInt int

fun numeric_lt :: "numeric \<Rightarrow> numeric \<Rightarrow> bool option" where
  "numeric_lt (Number a) (Number b) = num_lt a b"
| "numeric_lt (BigInt a) (BigInt b) = Some (a < b)"
| "numeric_lt (BigInt a) (Number b) = num_lt (Fin (of_int a)) b"
| "numeric_lt (Number a) (BigInt b) = num_lt a (Fin (of_int b))"

fun toPrim :: "'o objsem \<Rightarrow> 'o jsval \<Rightarrow> prim outcome" where
  "toPrim sem (Prim p) = Returned p"
| "toPrim sem (Obj ob) = toPrimitive sem ob"

fun toNumeric :: "'o objsem \<Rightarrow> prim \<Rightarrow> numeric outcome" where
  "toNumeric sem PUndef = Returned (Number NaN)"
| "toNumeric sem PNull = Returned (Number (Fin 0))"
| "toNumeric sem (PBool b) = Returned (Number (Fin (if b then 1 else 0)))"
| "toNumeric sem (PNum n) = Returned (Number n)"
| "toNumeric sem (PBig i) = Returned (BigInt i)"
| "toNumeric sem (PStr s) = Returned (Number (strToNumber sem s))"
| "toNumeric sem (PSym _) = Thrown ''TypeError''"

definition numerics_lt :: "'o objsem \<Rightarrow> prim \<Rightarrow> prim \<Rightarrow> bool option outcome" where
  "numerics_lt sem a b =
     (case toNumeric sem a of
        Thrown err \<Rightarrow> Thrown err
      | Returned nx \<Rightarrow>
          (case toNumeric sem b of
             Thrown err \<Rightarrow> Thrown err
           | Returned ny \<Rightarrow> Returned (numeric_lt nx ny)))"

fun prim_lt :: "'o objsem \<Rightarrow> prim \<Rightarrow> prim \<Rightarrow> bool option outcome" where
  "prim_lt sem (PStr a) (PStr b) = Returned (Some (str_lt a b))"
| "prim_lt sem (PBig a) (PStr b) =
     Returned (case strToBigInt sem b of None \<Rightarrow> None | Some n \<Rightarrow> Some (a < n))"
| "prim_lt sem (PStr a) (PBig b) =
     Returned (case strToBigInt sem a of None \<Rightarrow> None | Some n \<Rightarrow> Some (n < b))"
| "prim_lt sem a b = numerics_lt sem a b"

text \<open>
  The comparison behind the four operators: is \<open>x\<close> less than \<open>y\<close>, where \<open>leftFirst\<close>
  tells which of the two stood on the left and is converted first.
\<close>

definition isLessThan :: "'o objsem \<Rightarrow> bool \<Rightarrow> 'o jsval \<Rightarrow> 'o jsval \<Rightarrow> bool option outcome" where
  "isLessThan sem leftFirst x y =
     (if leftFirst then
        (case toPrim sem x of
           Thrown err \<Rightarrow> Thrown err
         | Returned px \<Rightarrow>
             (case toPrim sem y of
                Thrown err \<Rightarrow> Thrown err
              | Returned py \<Rightarrow> prim_lt sem px py))
      else
        (case toPrim sem y of
           Thrown err \<Rightarrow> Thrown err
         | Returned py \<Rightarrow>
             (case toPrim sem x of
                Thrown err \<Rightarrow> Thrown err
              | Returned px \<Rightarrow> prim_lt sem px py)))"

definition js_lt :: "'o objsem \<Rightarrow> 'o jsval \<Rightarrow> 'o jsval \<Rightarrow> bool outcome" where
  \<comment> \<open>\<^verbatim>\<open>a < b\<close>\<close>
  "js_lt sem a b = map_outcome (\<lambda>r. r = Some True) (isLessThan sem True a b)"

definition js_gt :: "'o objsem \<Rightarrow> 'o jsval \<Rightarrow> 'o jsval \<Rightarrow> bool outcome" where
  \<comment> \<open>\<^verbatim>\<open>a > b\<close>\<close>
  "js_gt sem a b = map_outcome (\<lambda>r. r = Some True) (isLessThan sem False b a)"

definition js_le :: "'o objsem \<Rightarrow> 'o jsval \<Rightarrow> 'o jsval \<Rightarrow> bool outcome" where
  \<comment> \<open>\<^verbatim>\<open>a <= b\<close>\<close>
  "js_le sem a b = map_outcome (\<lambda>r. r = Some False) (isLessThan sem False b a)"

definition js_ge :: "'o objsem \<Rightarrow> 'o jsval \<Rightarrow> 'o jsval \<Rightarrow> bool outcome" where
  \<comment> \<open>\<^verbatim>\<open>a >= b\<close>\<close>
  "js_ge sem a b = map_outcome (\<lambda>r. r = Some False) (isLessThan sem True a b)"

text \<open>
  The four helpers. Calling a method that is absent throws a \<^verbatim>\<open>TypeError\<close>; the optional
  methods are called only after \<^verbatim>\<open>typeof\<close> has found a function.
\<close>

definition lessThan_fn :: "'o objsem \<Rightarrow> 'o jsval \<Rightarrow> 'o jsval \<Rightarrow> bool outcome" where
  "lessThan_fn sem lhs rhs =
     (case bothComparable sem lhs rhs of
        Thrown err \<Rightarrow> Thrown err
      | Returned True \<Rightarrow>
          (case methodOf (lessThan_m sem) lhs of
             None \<Rightarrow> Thrown ''TypeError''
           | Some m \<Rightarrow> m rhs)
      | Returned False \<Rightarrow> js_lt sem lhs rhs)"

definition lessThanOrEqual :: "'o objsem \<Rightarrow> 'o jsval \<Rightarrow> 'o jsval \<Rightarrow> bool outcome" where
  "lessThanOrEqual sem lhs rhs =
     (case bothComparable sem lhs rhs of
        Thrown err \<Rightarrow> Thrown err
      | Returned True \<Rightarrow>
          (case methodOf (lessThanOrEqual_m sem) lhs of
             Some m \<Rightarrow> m rhs
           | None \<Rightarrow>
               (case lessThan_fn sem lhs rhs of
                  Thrown err \<Rightarrow> Thrown err
                | Returned True \<Rightarrow> Returned True
                | Returned False \<Rightarrow> equality sem lhs rhs))
      | Returned False \<Rightarrow> js_le sem lhs rhs)"

definition greaterThan_fn :: "'o objsem \<Rightarrow> 'o jsval \<Rightarrow> 'o jsval \<Rightarrow> bool outcome" where
  "greaterThan_fn sem lhs rhs =
     (case bothComparable sem lhs rhs of
        Thrown err \<Rightarrow> Thrown err
      | Returned True \<Rightarrow>
          (case methodOf (greaterThan_m sem) lhs of
             Some m \<Rightarrow> m rhs
           | None \<Rightarrow> map_outcome Not (lessThanOrEqual sem lhs rhs))
      | Returned False \<Rightarrow> js_gt sem lhs lhs)"

definition greaterThanOrEqual :: "'o objsem \<Rightarrow> 'o jsval \<Rightarrow> 'o jsval \<Rightarrow> bool outcome" where
  "greaterThanOrEqual sem lhs rhs =
     (case bothComparable sem lhs rhs of
        Thrown err \<Rightarrow> Thrown err
      | Returned True \<Rightarrow>
          (case methodOf (greaterThanOrEqual_m sem) lhs of
             Some m \<Rightarrow> m rhs
           | None \<Rightarrow> map_outcome Not (lessThan_fn sem lhs rhs))
      | Returned False \<Rightarrow> js_ge sem lhs rhs)"

text \<open>
  A concrete family of objects for running the helpers: a boxed number that carries the
  flag and implements only \<^verbatim>\<open>lessThan\<close>, against other boxes and against plain numbers.
  The family is run on numbers, boxes, \<^verbatim>\<open>null\<close> and \<^verbatim>\<open>undefined\<close>; no string it meets
  spells a number, so its conversions of strings answer not-a-number and no big integer.
\<close>

definition boxed :: "real objsem" where
  "boxed = \<lparr> hasFlag = (\<lambda>_. True),
             lessThan_m = (\<lambda>a. Some (\<lambda>v. case v of
                                          Obj b \<Rightarrow> Returned (a < b)
                                        | Prim (PNum (Fin b)) \<Rightarrow> Returned (a < b)
                                        | _ \<Rightarrow> Returned False)),
             lessThanOrEqual_m = (\<lambda>_. None),
             greaterThan_m = (\<lambda>_. None),
             greaterThanOrEqual_m = (\<lambda>_. None),
             toPrimitive = (\<lambda>a. Returned (PNum (Fin a))),
             strToNumber = (\<lambda>_. NaN),
             strToBigInt = (\<lambda>_. None),
             equality = (\<lambda>u v. Returned (u = v)) \<rparr>"

section \<open>The sweep driver of \<^verbatim>\<open>isect/sweep.ts\<close>\<close>

text \<open>
  The driver works on objects that the caller and the driver share by reference: points,
  segments, arrays and sweep events. Two segments may hold the same point object, and
  \<open>addSegment\<close> writes into the points it is given, so the objects live in a store and are
  named by their addresses. A coordinate is a finite number, and the driver's arithmetic on
  coordinates (differences, absolute values, comparisons) is taken to be exact: a coordinate
  is a real number.
\<close>

type_synonym addr = nat

record point =
  px :: real
  py :: real

record segment =
  seg_from :: addr
  seg_to :: addr
  seg_dy :: real
  seg_dx :: real
  seg_angle :: real

record sweepEvent =
  ev_point :: addr
  ev_from :: "addr option"
  ev_isReported :: bool

record heap =
  points :: "addr \<Rightarrow> point"
  segments :: "addr \<Rightarrow> segment"
  arrays :: "addr \<Rightarrow> addr list"
  events :: "addr \<Rightarrow> sweepEvent"
  fresh :: addr

text \<open>
  \<open>fresh\<close> is the next unused address; allocation takes it and moves it on. Where a
  function of the driver throws, the state it leaves behind is returned beside the outcome.
\<close>

text \<open>
  The modules \<^verbatim>\<open>./geom\<close>, \<^verbatim>\<open>./create-event-queue\<close> and \<^verbatim>\<open>./sweep-status\<close> are
  imported by the driver and are taken as given: the tolerance \<open>EPS\<close>, \<open>angle\<close>,
  \<open>intersectSegments\<close> (which answers with a new point object or nothing), the event queue
  with its four operations, and the sweep status with its five. \<open>find\<close> answers with a tree
  node; the driver reads the node's \<^verbatim>\<open>data\<close> (the event) and its \<^verbatim>\<open>isReported\<close>. The
  status operations get the error handler when the status is created and may throw through
  it, so each answers with an error message or a result; \<open>findSegmentsWithPoint\<close> answers
  with the segments it hands to its visitor, in order. The queue is given no error handler:
  its operations return. Queue and status read points and segments but do not write them.
\<close>

record node =
  nd_data :: addr
  nd_isReported :: bool

record boundary =
  beforeLeft :: "addr option"
  bLeft :: "addr option"
  bRight :: "addr option"
  afterRight :: "addr option"

record ('q, 'st) env =
  EPS :: real
  angle :: "real \<Rightarrow> real \<Rightarrow> real"
  intersectSegments :: "heap \<Rightarrow> addr \<Rightarrow> addr \<Rightarrow> point option"
  createEventQueue :: 'q
  q_isEmpty :: "'q \<Rightarrow> bool"
  q_pop :: "heap \<Rightarrow> 'q \<Rightarrow> (addr \<times> 'q) option"
  q_find :: "heap \<Rightarrow> 'q \<Rightarrow> addr \<Rightarrow> node option"
  q_insert :: "heap \<Rightarrow> addr \<Rightarrow> 'q \<Rightarrow> 'q"
  createSweepStatus :: 'st
  findSegmentsWithPoint :: "heap \<Rightarrow> 'st \<Rightarrow> addr \<Rightarrow> string + addr list"
  deleteSegments :: "heap \<Rightarrow> addr list \<Rightarrow> addr list \<Rightarrow> addr \<Rightarrow> 'st \<Rightarrow> string + 'st"
  insertSegments :: "heap \<Rightarrow> addr list \<Rightarrow> addr list \<Rightarrow> addr \<Rightarrow> 'st \<Rightarrow> string + 'st"
  getLeftRightPoint :: "heap \<Rightarrow> 'st \<Rightarrow> addr \<Rightarrow> string + (addr option \<times> addr option)"
  getBoundarySegments :: "heap \<Rightarrow> 'st \<Rightarrow> addr list \<Rightarrow> addr list \<Rightarrow> string + boundary"

text \<open>
  The options of the caller. A handler of the caller's own works on a state of the
  caller's own, \<open>'u\<close>; it returns, \<^verbatim>\<open>onFound\<close> with an answer that is truthy or falsy, or it
  throws. It sees the store but neither writes to it nor calls back into the driver.
\<close>

record 'u options =
  onFound :: "(heap \<Rightarrow> addr \<Rightarrow> addr option \<Rightarrow> 'u \<Rightarrow> bool outcome \<times> 'u) option"
  onError :: "(string \<Rightarrow> 'u \<Rightarrow> unit outcome \<times> 'u) option"

text \<open>
  The driver: its store, the queue, the status, the results array and the three variables
  \<^verbatim>\<open>lower\<close>, \<^verbatim>\<open>interior\<close> and \<^verbatim>\<open>lastPoint\<close> that its functions share. \<open>calls\<close> is not
  in the source: it records every invocation of the intersection callback, with the point,
  the array passed, what the array held at that moment, and the outcome: the truth value of
  the answer, or the error thrown.
\<close>

record ('q, 'st, 'u) driver =
  heap :: heap
  eventQueue :: 'q
  sweepStatus :: 'st
  results :: "(addr \<times> addr option) list"
  lower :: "addr option"
  interior :: "addr option"
  lastPoint :: "addr option"
  user :: 'u
  calls :: "(addr \<times> addr option \<times> addr list \<times> bool outcome) list"

text \<open>\<^verbatim>\<open>const EMPTY = []\<close>: one array, created when the module is loaded and shared.\<close>

definition EMPTY :: addr where
  "EMPTY = 0"

text \<open>Writing a field, pushing to an array, creating an object.\<close>

definition setX :: "addr \<Rightarrow> real \<Rightarrow> heap \<Rightarrow> heap" where
  "setX a v h = h\<lparr>points := (points h)(a := (points h a)\<lparr>px := v\<rparr>)\<rparr>"

definition setY :: "addr \<Rightarrow> real \<Rightarrow> heap \<Rightarrow> heap" where
  "setY a v h = h\<lparr>points := (points h)(a := (points h a)\<lparr>py := v\<rparr>)\<rparr>"

definition setSegment :: "addr \<Rightarrow> (segment \<Rightarrow> segment) \<Rightarrow> heap \<Rightarrow> heap" where
  "setSegment a f h = h\<lparr>segments := (segments h)(a := f (segments h a))\<rparr>"

definition setEvent :: "addr \<Rightarrow> (sweepEvent \<Rightarrow> sweepEvent) \<Rightarrow> heap \<Rightarrow> heap" where
  "setEvent a f h = h\<lparr>events := (events h)(a := f (events h a))\<rparr>"

definition newArray :: "addr list \<Rightarrow> heap \<Rightarrow> addr \<times> heap" where
  "newArray xs h = (fresh h, h\<lparr>arrays := (arrays h)(fresh h := xs), fresh := Suc (fresh h)\<rparr>)"

definition push :: "addr \<Rightarrow> addr \<Rightarrow> heap \<Rightarrow> heap" where
  "push a v h = h\<lparr>arrays := (arrays h)(a := arrays h a @ [v])\<rparr>"

definition newPoint :: "point \<Rightarrow> heap \<Rightarrow> addr \<times> heap" where
  "newPoint pt h = (fresh h, h\<lparr>points := (points h)(fresh h := pt), fresh := Suc (fresh h)\<rparr>)"

text \<open>
  Modelled from the spec: the class \<^verbatim>\<open>SweepEvent\<close> of \<^verbatim>\<open>./sweep-event\<close> is not among the
  sources. An event is a point plus an optional list of the segments that start there plus
  the flag \<^verbatim>\<open>isReported\<close>; \<^verbatim>\<open>new SweepEvent(point, segment)\<close> starts the list with the
  segment and \<^verbatim>\<open>new SweepEvent(point)\<close> leaves it out.
\<close>

definition newSweepEvent :: "addr \<Rightarrow> addr option \<Rightarrow> heap \<Rightarrow> addr \<times> heap" where
  "newSweepEvent pt sg h =
     (case sg of
        None \<Rightarrow>
          (fresh h,
           h\<lparr>events := (events h)(fresh h := \<lparr>ev_point = pt, ev_from = None, ev_isReported = False\<rparr>),
             fresh := Suc (fresh h)\<rparr>)
      | Some s \<Rightarrow>
          (let (a, h1) = newArray [s] h in
           (fresh h1,
            h1\<lparr>events := (events h1)(fresh h1 := \<lparr>ev_point = pt, ev_from = Some a, ev_isReported = False\<rparr>),
               fresh := Suc (fresh h1)\<rparr>)))"

text \<open>
  Modelled from the spec: \<^verbatim>\<open>samePoint\<close> of \<^verbatim>\<open>./geom\<close> is not among the sources. Two
  points are the same iff both coordinate differences are below the tolerance.
\<close>

definition samePoint :: "real \<Rightarrow> heap \<Rightarrow> addr \<Rightarrow> addr \<Rightarrow> bool" where
  "samePoint eps h a b =
     (\<bar>px (points h a) - px (points h b)\<bar> < eps \<and> \<bar>py (points h a) - py (points h b)\<bar> < eps)"

text \<open>The functions of \<^verbatim>\<open>sweep.ts\<close> outside the driver's closure.\<close>

definition roundNearZero :: "real \<Rightarrow> addr \<Rightarrow> heap \<Rightarrow> heap" where
  "roundNearZero eps a h =
     (let h1 = (if \<bar>px (points h a)\<bar> < eps then setX a 0 h else h)
      in if \<bar>py (points h1 a)\<bar> < eps then setY a 0 h1 else h1)"

definition union_arr :: "addr option \<Rightarrow> addr option \<Rightarrow> heap \<Rightarrow> addr option \<times> heap" where
  "union_arr a b h =
     (case a of
        None \<Rightarrow> (b, h)
      | Some a' \<Rightarrow>
          (case b of
             None \<Rightarrow> (a, h)
           | Some b' \<Rightarrow> (let (c, h') = newArray (arrays h a' @ arrays h b') h in (Some c, h'))))"

definition byY :: "real \<Rightarrow> point \<Rightarrow> point \<Rightarrow> real" where
  "byY eps a b =
     (let res = py b - py a
      in if \<bar>res\<bar> < eps
         then (let res' = px a - px b in if \<bar>res'\<bar> < eps then 0 else res')
         else res)"

definition arrayOf :: "heap \<Rightarrow> addr option \<Rightarrow> addr list" where
  "arrayOf h a = (case a of None \<Rightarrow> [] | Some a' \<Rightarrow> arrays h a')"

text \<open>
  The two reporters. \<open>reportIntersection\<close> is the handler chosen when the driver is
  created: the caller's \<^verbatim>\<open>onFound\<close> or the default one, which pushes onto \<open>results\<close> and
  answers undefined. \<open>reportError\<close> is the caller's \<^verbatim>\<open>onError\<close> or the default one, which
  throws; after a handler of the caller's that returns, the driver goes on.
\<close>

definition defaultIntersectionReporter ::
  "addr \<Rightarrow> addr option \<Rightarrow> ('q, 'st, 'u) driver \<Rightarrow> bool outcome \<times> ('q, 'st, 'u) driver" where
  "defaultIntersectionReporter p segs s = (Returned False, s\<lparr>results := results s @ [(p, segs)]\<rparr>)"

definition reportIntersection ::
  "'u options \<Rightarrow> addr \<Rightarrow> addr option \<Rightarrow> ('q, 'st, 'u) driver
     \<Rightarrow> bool outcome \<times> ('q, 'st, 'u) driver" where
  "reportIntersection opts p segs s =
     (let (r, s') =
            (case onFound opts of
               None \<Rightarrow> defaultIntersectionReporter p segs s
             | Some f \<Rightarrow> (let (r, u') = f (heap s) p segs (user s) in (r, s\<lparr>user := u'\<rparr>)))
      in (r, s'\<lparr>calls := calls s' @ [(p, segs, arrayOf (heap s) segs, r)]\<rparr>))"

definition defaultErrorReporter :: "string \<Rightarrow> ('q, 'st, 'u) driver \<Rightarrow> unit outcome \<times> ('q, 'st, 'u) driver" where
  "defaultErrorReporter errorMessage s = (Thrown errorMessage, s)"

definition reportError ::
  "'u options \<Rightarrow> string \<Rightarrow> ('q, 'st, 'u) driver \<Rightarrow> unit outcome \<times> ('q, 'st, 'u) driver" where
  "reportError opts msg s =
     (case onError opts of
        None \<Rightarrow> defaultErrorReporter msg s
      | Some f \<Rightarrow> (let (r, u') = f msg (user s) in (r, s\<lparr>user := u'\<rparr>)))"

definition findNewEvent ::
  "('q, 'st) env \<Rightarrow> 'u options \<Rightarrow> addr option \<Rightarrow> addr option \<Rightarrow> addr \<Rightarrow> ('q, 'st, 'u) driver
     \<Rightarrow> unit outcome \<times> ('q, 'st, 'u) driver" where
  "findNewEvent e opts left right p s =
     (case left of
        None \<Rightarrow> (Returned (), s)
      | Some l \<Rightarrow>
     (case right of
        None \<Rightarrow> (Returned (), s)
      | Some r \<Rightarrow>
     (case intersectSegments e (heap s) l r of
        None \<Rightarrow> (Returned (), s)
      | Some ipt \<Rightarrow>
          (let (intersection, h1) = newPoint ipt (heap s);
               s1 = s\<lparr>heap := h1\<rparr>;
               ppoint = points h1 (ev_point (events h1 p));
               dy = py ppoint - py (points h1 intersection)
           in if dy < - EPS e then (Returned (), s1)
              else if \<bar>dy\<bar> < EPS e \<and> px (points h1 intersection) \<le> px ppoint then (Returned (), s1)
              else
                (let h2 = roundNearZero (EPS e) intersection h1;
                     s2 = s1\<lparr>heap := h2\<rparr>
                 in case q_find e h2 (eventQueue s2) intersection of
                      Some current \<Rightarrow>
                        if nd_isReported current
                        then reportError opts ''We already reported this event.'' s2
                        else (Returned (), s2)
                    | None \<Rightarrow>
                        (let (event, h3) = newSweepEvent intersection None h2
                         in (Returned (),
                             s2\<lparr>heap := h3, eventQueue := q_insert e h3 event (eventQueue s2)\<rparr>)))))))"

definition addLowerOrInterior ::
  "('q, 'st) env \<Rightarrow> addr \<Rightarrow> addr \<Rightarrow> ('q, 'st, 'u) driver \<Rightarrow> ('q, 'st, 'u) driver" where
  "addLowerOrInterior e lp sg s =
     (let h = heap s
      in if samePoint (EPS e) h (seg_to (segments h sg)) lp then
           (case lower s of
              None \<Rightarrow> (let (a, h') = newArray [sg] h in s\<lparr>heap := h', lower := Some a\<rparr>)
            | Some a \<Rightarrow> s\<lparr>heap := push a sg h\<rparr>)
         else if \<not> samePoint (EPS e) h (seg_from (segments h sg)) lp then
           (case interior s of
              None \<Rightarrow> (let (a, h') = newArray [sg] h in s\<lparr>heap := h', interior := Some a\<rparr>)
            | Some a \<Rightarrow> s\<lparr>heap := push a sg h\<rparr>)
         else s)"

text \<open>
  \<open>handleEventPoint\<close>, in three parts: classification, then the report (lines 145 to
  157, \<open>reportAndProbe\<close>), then the update of the status and the probes for new events
  (lines 159 to 182, \<open>probeNewEvents\<close>). A bare \<^verbatim>\<open>return\<close> answers undefined, which is
  falsy.
\<close>

definition probeNewEvents ::
  "('q, 'st) env \<Rightarrow> 'u options \<Rightarrow> addr \<Rightarrow> addr \<Rightarrow> addr \<Rightarrow> addr \<Rightarrow> addr \<Rightarrow> nat \<Rightarrow> nat
     \<Rightarrow> ('q, 'st, 'u) driver \<Rightarrow> bool outcome \<times> ('q, 'st, 'u) driver" where
  "probeNewEvents e opts p lp upper it lo uLength iLength s =
     (case deleteSegments e (heap s) (arrays (heap s) lo) (arrays (heap s) it) lp (sweepStatus s) of
        Inl err \<Rightarrow> (Thrown err, s)
      | Inr st1 \<Rightarrow>
     (case insertSegments e (heap s) (arrays (heap s) it) (arrays (heap s) upper) lp st1 of
        Inl err \<Rightarrow> (Thrown err, s\<lparr>sweepStatus := st1\<rparr>)
      | Inr st2 \<Rightarrow>
          (let s1 = s\<lparr>sweepStatus := st2\<rparr>;
               hasNoCrossing = (uLength + iLength = 0)
           in if hasNoCrossing then
                (case getLeftRightPoint e (heap s1) st2 lp of
                   Inl err \<Rightarrow> (Thrown err, s1)
                 | Inr (sLeft, sRight) \<Rightarrow>
                     (case sLeft of
                        None \<Rightarrow> (Returned False, s1)
                      | Some l \<Rightarrow>
                     (case sRight of
                        None \<Rightarrow> (Returned False, s1)
                      | Some r \<Rightarrow>
                     (case findNewEvent e opts sLeft sRight p s1 of
                        (Thrown err, s2) \<Rightarrow> (Thrown err, s2)
                      | (Returned _, s2) \<Rightarrow> (Returned False, s2)))))
              else
                (case getBoundarySegments e (heap s1) st2 (arrays (heap s1) upper) (arrays (heap s1) it) of
                   Inl err \<Rightarrow> (Thrown err, s1)
                 | Inr b \<Rightarrow>
                     (case findNewEvent e opts (beforeLeft b) (bLeft b) p s1 of
                        (Thrown err, s2) \<Rightarrow> (Thrown err, s2)
                      | (Returned _, s2) \<Rightarrow>
                     (case findNewEvent e opts (bRight b) (afterRight b) p s2 of
                        (Thrown err, s3) \<Rightarrow> (Thrown err, s3)
                      | (Returned _, s3) \<Rightarrow> (Returned False, s3)))))))"

definition reportAndProbe ::
  "('q, 'st) env \<Rightarrow> 'u options \<Rightarrow> addr \<Rightarrow> addr \<Rightarrow> addr \<Rightarrow> addr \<Rightarrow> addr
     \<Rightarrow> ('q, 'st, 'u) driver \<Rightarrow> bool outcome \<times> ('q, 'st, 'u) driver" where
  "reportAndProbe e opts p lp upper it lo s4 =
     (let uLength = length (arrays (heap s4) upper);
          iLength = length (arrays (heap s4) it);
          lLength = length (arrays (heap s4) lo);
          hasIntersection = (uLength + iLength + lLength > 1);
          hasPointIntersection =
            (\<not> hasIntersection \<and> uLength = 0 \<and> lLength = 0 \<and> iLength > 0)
      in if hasIntersection \<or> hasPointIntersection then
           (let h5 = setEvent p (\<lambda>v. v\<lparr>ev_isReported := True\<rparr>) (heap s4);
                (lu, h6) = union_arr (Some lo) (Some upper) h5;
                (ilu, h7) = union_arr (Some it) lu h6;
                (stop, s5) = reportIntersection opts lp ilu (s4\<lparr>heap := h7\<rparr>)
            in case stop of
                 Thrown err \<Rightarrow> (Thrown err, s5)
               | Returned True \<Rightarrow> (Returned True, s5)
               | Returned False \<Rightarrow> probeNewEvents e opts p lp upper it lo uLength iLength s5)
         else probeNewEvents e opts p lp upper it lo uLength iLength s4)"

definition handleEventPoint ::
  "('q, 'st) env \<Rightarrow> 'u options \<Rightarrow> addr \<Rightarrow> ('q, 'st, 'u) driver \<Rightarrow> bool outcome \<times> ('q, 'st, 'u) driver" where
  "handleEventPoint e opts p s0 =
     (let lp = ev_point (events (heap s0) p);
          s1 = s0\<lparr>lastPoint := Some lp\<rparr>;
          upper = (case ev_from (events (heap s1) p) of Some a \<Rightarrow> a | None \<Rightarrow> EMPTY);
          s2 = s1\<lparr>lower := None, interior := None\<rparr>
      in case findSegmentsWithPoint e (heap s2) (sweepStatus s2) lp of
           Inl err \<Rightarrow> (Thrown err, s2)
         | Inr found \<Rightarrow>
             (let s3 = fold (addLowerOrInterior e lp) found s2;
                  lo = (case lower s3 of None \<Rightarrow> EMPTY | Some a \<Rightarrow> a);
                  it = (case interior s3 of None \<Rightarrow> EMPTY | Some a \<Rightarrow> a);
                  s4 = s3\<lparr>lower := Some lo, interior := Some it\<rparr>
              in reportAndProbe e opts p lp upper it lo s4))"

text \<open>
  \<open>run\<close> loops until the queue is empty, so it need not return: \<open>run_loop n\<close> is \<open>run\<close>
  allowed \<open>n\<close> events, with \<open>None\<close> when they do not suffice. It returns the results
  array, or undefined (\<open>Returned None\<close>) after a truthy answer. \<open>step_loop n\<close> is the
  caller's loop \<^verbatim>\<open>while (step()) {}\<close> under the same allowance. Popping from a queue that
  claims not to be empty but yields nothing makes \<^verbatim>\<open>p.point\<close> throw.
\<close>

fun run_loop ::
  "nat \<Rightarrow> ('q, 'st) env \<Rightarrow> 'u options \<Rightarrow> ('q, 'st, 'u) driver
     \<Rightarrow> ((addr \<times> addr option) list option outcome \<times> ('q, 'st, 'u) driver) option" where
  "run_loop 0 e opts s = None"
| "run_loop (Suc n) e opts s =
     (if \<not> q_isEmpty e (eventQueue s) then
        (case q_pop e (heap s) (eventQueue s) of
           None \<Rightarrow> Some (Thrown ''TypeError'', s)
         | Some (eventPoint, q') \<Rightarrow>
             (case handleEventPoint e opts eventPoint (s\<lparr>eventQueue := q'\<rparr>) of
                (Thrown err, s') \<Rightarrow> Some (Thrown err, s')
              | (Returned True, s') \<Rightarrow> Some (Returned None, s')
              | (Returned False, s') \<Rightarrow> run_loop n e opts s'))
      else Some (Returned (Some (results s)), s))"

definition step ::
  "('q, 'st) env \<Rightarrow> 'u options \<Rightarrow> ('q, 'st, 'u) driver \<Rightarrow> bool outcome \<times> ('q, 'st, 'u) driver" where
  "step e opts s =
     (if \<not> q_isEmpty e (eventQueue s) then
        (case q_pop e (heap s) (eventQueue s) of
           None \<Rightarrow> (Thrown ''TypeError'', s)
         | Some (eventPoint, q') \<Rightarrow>
             (case handleEventPoint e opts eventPoint (s\<lparr>eventQueue := q'\<rparr>) of
                (Thrown err, s') \<Rightarrow> (Thrown err, s')
              | (Returned _, s') \<Rightarrow> (Returned True, s')))
      else (Returned False, s))"

fun step_loop ::
  "nat \<Rightarrow> ('q, 'st) env \<Rightarrow> 'u options \<Rightarrow> ('q, 'st, 'u) driver
     \<Rightarrow> (unit outcome \<times> ('q, 'st, 'u) driver) option" where
  "step_loop 0 e opts s = None"
| "step_loop (Suc n) e opts s =
     (case step e opts s of
        (Thrown err, s') \<Rightarrow> Some (Thrown err, s')
      | (Returned True, s') \<Rightarrow> step_loop n e opts s'
      | (Returned False, s') \<Rightarrow> Some (Returned (), s'))"

text \<open>
  \<open>addSegment\<close>, in two parts: lines 246 to 274 (\<open>canonicalize\<close>) write into the segment
  and its points, the rest consults and fills the queue. It throws when the callback does.
\<close>

definition canonicalize :: "('q, 'st) env \<Rightarrow> addr \<Rightarrow> heap \<Rightarrow> heap" where
  "canonicalize e segment h0 =
     (let from0 = seg_from (segments h0 segment);
          to0 = seg_to (segments h0 segment);
          h1 = roundNearZero (EPS e) from0 h0;
          h2 = roundNearZero (EPS e) to0 h1;
          dy = py (points h2 from0) - py (points h2 to0);
          h3 = (if \<bar>dy\<bar> < 1 / 100000
                then setSegment segment (\<lambda>g. g\<lparr>seg_dy := 0\<rparr>) (setY from0 (py (points h2 to0)) h2)
                else h2);
          swap = (py (points h3 from0) < py (points h3 to0)
                  \<or> (py (points h3 from0) = py (points h3 to0) \<and> px (points h3 from0) > px (points h3 to0)));
          h4 = (if swap then setSegment segment (\<lambda>g. g\<lparr>seg_from := to0, seg_to := from0\<rparr>) h3 else h3);
          from = (if swap then to0 else from0);
          to = (if swap then from0 else to0);
          sdy = py (points h4 from) - py (points h4 to);
          sdx = px (points h4 from) - px (points h4 to)
      in setSegment segment (\<lambda>g. g\<lparr>seg_dy := sdy, seg_dx := sdx, seg_angle := angle e sdy sdx\<rparr>) h4)"

definition isPoint :: "heap \<Rightarrow> addr \<Rightarrow> bool" where
  "isPoint h segment \<longleftrightarrow>
     seg_dy (segments h segment) = seg_dx (segments h segment) \<and> seg_dy (segments h segment) = 0"

definition addSegment ::
  "('q, 'st) env \<Rightarrow> 'u options \<Rightarrow> addr \<Rightarrow> ('q, 'st, 'u) driver
     \<Rightarrow> unit outcome \<times> ('q, 'st, 'u) driver" where
  "addSegment e opts segment s =
     (let h5 = canonicalize e segment (heap s);
          from = seg_from (segments h5 segment);
          to = seg_to (segments h5 segment);
          prev = q_find e h5 (eventQueue s) from;
          identical =
            (case prev of
               None \<Rightarrow> None
             | Some nd \<Rightarrow>
                 if \<not> isPoint h5 segment then
                   (case ev_from (events h5 (nd_data nd)) of
                      None \<Rightarrow> None
                    | Some prevFrom \<Rightarrow>
                        find (\<lambda>s'. samePoint (EPS e) h5 (seg_to (segments h5 s')) to) (arrays h5 prevFrom))
                 else None)
      in case identical of
           Some s' \<Rightarrow>
             (let (a1, h6) = newArray [seg_from (segments h5 s'), seg_to (segments h5 s')] h5;
                  (r1, s1) = reportIntersection opts (seg_from (segments h6 s')) (Some a1) (s\<lparr>heap := h6\<rparr>)
              in case r1 of
                   Thrown err \<Rightarrow> (Thrown err, s1)
                 | Returned _ \<Rightarrow>
                     (let (a2, h7) = newArray [seg_from (segments (heap s1) s'), seg_to (segments (heap s1) s')] (heap s1);
                          (r2, s2) = reportIntersection opts (seg_to (segments h7 s')) (Some a2) (s1\<lparr>heap := h7\<rparr>)
                      in case r2 of
                           Thrown err \<Rightarrow> (Thrown err, s2)
                         | Returned _ \<Rightarrow> (Returned (), s2)))
         | None \<Rightarrow>
             if \<not> isPoint h5 segment then
               (let s1 =
                      (case prev of
                         Some nd \<Rightarrow>
                           (case ev_from (events h5 (nd_data nd)) of
                              Some a \<Rightarrow> s\<lparr>heap := push a segment h5\<rparr>
                            | None \<Rightarrow>
                                (let (a, h6) = newArray [segment] h5
                                 in s\<lparr>heap := setEvent (nd_data nd) (\<lambda>v. v\<lparr>ev_from := Some a\<rparr>) h6\<rparr>))
                       | None \<Rightarrow>
                           (let (ev, h6) = newSweepEvent from (Some segment) h5
                            in s\<lparr>heap := h6, eventQueue := q_insert e h6 ev (eventQueue s)\<rparr>));
                    (event, h7) = newSweepEvent to None (heap s1)
                in (Returned (), s1\<lparr>heap := h7, eventQueue := q_insert e h7 event (eventQueue s1)\<rparr>))
             else
               (let (event, h6) = newSweepEvent to None h5
                in (Returned (), s\<lparr>heap := h6, eventQueue := q_insert e h6 event (eventQueue s)\<rparr>)))"

text \<open>
  \<open>isect\<close> creates the driver and ingests the segments by \<^verbatim>\<open>segments.forEach(addSegment)\<close>,
  which an error ends: \<open>addNext\<close> is one round of that loop.
\<close>

definition addNext ::
  "('q, 'st) env \<Rightarrow> 'u options \<Rightarrow> addr \<Rightarrow> unit outcome \<times> ('q, 'st, 'u) driver
     \<Rightarrow> unit outcome \<times> ('q, 'st, 'u) driver" where
  "addNext e opts segment x =
     (case fst x of
        Thrown err \<Rightarrow> x
      | Returned _ \<Rightarrow> addSegment e opts segment (snd x))"

definition isect ::
  "('q, 'st) env \<Rightarrow> 'u options \<Rightarrow> 'u \<Rightarrow> heap \<Rightarrow> addr list
     \<Rightarrow> unit outcome \<times> ('q, 'st, 'u) driver" where
  "isect e opts u h segs =
     fold (addNext e opts) segs
       (Returned (),
        \<lparr>heap = h, eventQueue = createEventQueue e, sweepStatus = createSweepStatus e, results = [],
         lower = None, interior = None, lastPoint = None, user = u, calls = []\<rparr>)"

section \<open>Vocabulary of the statements\<close>

text \<open>
  The three groups of segments at an event point: the event's own list, and the split of
  the segments the status found into those ending at the point and those passing through.
\<close>

definition upperAt :: "heap \<Rightarrow> addr \<Rightarrow> addr list" where
  "upperAt h p = arrayOf h (ev_from (events h p))"

definition lowerAt :: "real \<Rightarrow> heap \<Rightarrow> addr \<Rightarrow> addr list \<Rightarrow> addr list" where
  "lowerAt eps h lp found = filter (\<lambda>sg. samePoint eps h (seg_to (segments h sg)) lp) found"

definition interiorAt :: "real \<Rightarrow> heap \<Rightarrow> addr \<Rightarrow> addr list \<Rightarrow> addr list" where
  "interiorAt eps h lp found =
     filter (\<lambda>sg. \<not> samePoint eps h (seg_to (segments h sg)) lp
                  \<and> \<not> samePoint eps h (seg_from (segments h sg)) lp) found"


definition answered :: "addr \<times> addr option \<times> addr list \<times> bool outcome \<Rightarrow> bool" where
  "answered c \<longleftrightarrow> snd (snd (snd c)) = Returned True"



definition runReturn ::
  "unit outcome \<times> ('q, 'st, 'u) driver
     \<Rightarrow> (addr \<times> addr option) list option outcome \<times> ('q, 'st, 'u) driver" where
  "runReturn x =
     (case x of
        (Thrown err, s) \<Rightarrow> (Thrown err, s)
      | (Returned _, s) \<Rightarrow> (Returned (Some (results s)), s))"

text \<open>The orientation that ingestion gives a segment, and what it means to share a point.\<close>

definition canonical :: "('q, 'st) env \<Rightarrow> heap \<Rightarrow> addr \<Rightarrow> bool" where
  "canonical e h sg \<longleftrightarrow>
     (let g = segments h sg; f = points h (seg_from g); t = points h (seg_to g)
      in (py f > py t \<or> (py f = py t \<and> px f < px t))
         \<and> seg_dy g = py f - py t \<and> seg_dx g = px f - px t
         \<and> seg_angle g = angle e (seg_dy g) (seg_dx g))"

definition allocated :: "heap \<Rightarrow> addr \<Rightarrow> bool" where
  "allocated h sg \<longleftrightarrow> seg_from (segments h sg) < fresh h \<and> seg_to (segments h sg) < fresh h"

definition sharesEndpoint :: "heap \<Rightarrow> addr \<Rightarrow> addr \<Rightarrow> bool" where
  "sharesEndpoint h a b \<longleftrightarrow>
     seg_from (segments h a) = seg_from (segments h b) \<or> seg_from (segments h a) = seg_to (segments h b)
     \<or> seg_to (segments h a) = seg_from (segments h b) \<or> seg_to (segments h a) = seg_to (segments h b)"

text \<open>
  For a probe: the point \<open>intersectSegments\<close> yields, if both neighbours exist; the
  current sweep position; a point with its near-zero coordinates snapped; and whether the
  queue holds no event at the snapped point.
\<close>

definition intersectionOf ::
  "('q, 'st) env \<Rightarrow> addr option \<Rightarrow> addr option \<Rightarrow> ('q, 'st, 'u) driver \<Rightarrow> point option" where
  "intersectionOf e left right s =
     (case left of
        None \<Rightarrow> None
      | Some l \<Rightarrow> (case right of None \<Rightarrow> None | Some r \<Rightarrow> intersectSegments e (heap s) l r))"

definition sweepPoint :: "('q, 'st, 'u) driver \<Rightarrow> addr \<Rightarrow> point" where
  "sweepPoint s p = points (heap s) (ev_point (events (heap s) p))"

definition snapped :: "real \<Rightarrow> point \<Rightarrow> point" where
  "snapped eps q =
     \<lparr>px = (if \<bar>px q\<bar> < eps then 0 else px q), py = (if \<bar>py q\<bar> < eps then 0 else py q)\<rparr>"

definition unscheduled :: "('q, 'st) env \<Rightarrow> ('q, 'st, 'u) driver \<Rightarrow> point \<Rightarrow> bool" where
  "unscheduled e s q \<longleftrightarrow>
     q_find e (roundNearZero (EPS e) (fresh (heap s)) (snd (newPoint q (heap s))))
       (eventQueue s) (fresh (heap s)) = None"

text \<open>
  Two relations between driver states, for the proofs: what classification has built so
  far, and what the update and the probes leave alone.
\<close>

definition classified ::
  "('q, 'st, 'u) driver \<Rightarrow> ('q, 'st, 'u) driver \<Rightarrow> addr list \<Rightarrow> addr list \<Rightarrow> bool" where
  "classified s0 s ls its \<longleftrightarrow>
     points (heap s) = points (heap s0) \<and> segments (heap s) = segments (heap s0)
     \<and> events (heap s) = events (heap s0)
     \<and> eventQueue s = eventQueue s0 \<and> sweepStatus s = sweepStatus s0 \<and> results s = results s0
     \<and> user s = user s0 \<and> calls s = calls s0 \<and> lastPoint s = lastPoint s0
     \<and> fresh (heap s0) \<le> fresh (heap s)
     \<and> (\<forall>x<fresh (heap s0). arrays (heap s) x = arrays (heap s0) x)
     \<and> (case lower s of
          None \<Rightarrow> ls = []
        | Some a \<Rightarrow> arrays (heap s) a = ls \<and> fresh (heap s0) \<le> a \<and> a < fresh (heap s))
     \<and> (case interior s of
          None \<Rightarrow> its = []
        | Some a \<Rightarrow> arrays (heap s) a = its \<and> fresh (heap s0) \<le> a \<and> a < fresh (heap s))
     \<and> (lower s = None \<or> lower s \<noteq> interior s)"

definition probeFrame :: "('q, 'st, 'u) driver \<Rightarrow> ('q, 'st, 'u) driver \<Rightarrow> bool" where
  "probeFrame s s' \<longleftrightarrow>
     calls s' = calls s \<and> results s' = results s \<and> lower s' = lower s \<and> interior s' = interior s
     \<and> lastPoint s' = lastPoint s \<and> arrays (heap s') = arrays (heap s)
     \<and> segments (heap s') = segments (heap s) \<and> fresh (heap s) \<le> fresh (heap s')
     \<and> (\<forall>a<fresh (heap s). points (heap s') a = points (heap s) a \<and> events (heap s') a = events (heap s) a)"

section \<open>A queue and a status to run the driver on\<close>

text \<open>
  Modelled from the spec: \<^verbatim>\<open>angle\<close> of \<^verbatim>\<open>./geom\<close> is not among the sources. It is a
  key that orders the directions of segments sharing an endpoint, whatever their length;
  here the horizontal share of the direction, growing from left to right.
\<close>

definition pseudoAngle :: "real \<Rightarrow> real \<Rightarrow> real" where
  "pseudoAngle dy dx = (if dy = 0 \<and> dx = 0 then 0 else - dx / (\<bar>dx\<bar> + \<bar>dy\<bar>))"

text \<open>
  Modelled from the spec: \<^verbatim>\<open>intersectSegments\<close> of \<^verbatim>\<open>./geom\<close> is not among the
  sources. It answers with the point where the two segments meet, or with nothing when
  they are parallel or do not meet.
\<close>

definition lineIntersection :: "heap \<Rightarrow> addr \<Rightarrow> addr \<Rightarrow> point option" where
  "lineIntersection h a b =
     (let fa = points h (seg_from (segments h a)); ta = points h (seg_to (segments h a));
          fb = points h (seg_from (segments h b)); tb = points h (seg_to (segments h b));
          ux = px ta - px fa; uy = py ta - py fa;
          vx = px tb - px fb; vy = py tb - py fb;
          den = ux * vy - uy * vx
      in if den = 0 then None
         else
           (let t = ((px fb - px fa) * vy - (py fb - py fa) * vx) / den;
                u = ((px fb - px fa) * uy - (py fb - py fa) * ux) / den
            in if 0 \<le> t \<and> t \<le> 1 \<and> 0 \<le> u \<and> u \<le> 1
               then Some \<lparr>px = px fa + t * ux, py = py fa + t * uy\<rparr>
               else None))"

text \<open>
  Modelled from the spec: \<^verbatim>\<open>./create-event-queue\<close> is not among the sources. The
  schedule is a set of events ordered by \<open>byY\<close> on their points, with at most one event
  per point within tolerance; \<open>pop\<close> takes the first, \<open>find\<close> looks a point up, and
  \<open>insert\<close> at a point that has an event already adds none. Here it is a sorted list.
\<close>

definition eventKey :: "heap \<Rightarrow> addr \<Rightarrow> point" where
  "eventKey h ev = points h (ev_point (events h ev))"

definition sameKey :: "real \<Rightarrow> heap \<Rightarrow> addr \<Rightarrow> addr \<Rightarrow> bool" where
  "sameKey eps h p ev \<longleftrightarrow> byY eps (points h p) (eventKey h ev) = 0"

definition lq_isEmpty :: "addr list \<Rightarrow> bool" where
  "lq_isEmpty q \<longleftrightarrow> q = []"

definition lq_find :: "real \<Rightarrow> heap \<Rightarrow> addr list \<Rightarrow> addr \<Rightarrow> node option" where
  "lq_find eps h q p =
     (case find (sameKey eps h p) q of
        None \<Rightarrow> None
      | Some ev \<Rightarrow> Some \<lparr>nd_data = ev, nd_isReported = ev_isReported (events h ev)\<rparr>)"

fun lq_insert :: "real \<Rightarrow> heap \<Rightarrow> addr \<Rightarrow> addr list \<Rightarrow> addr list" where
  "lq_insert eps h ev [] = [ev]"
| "lq_insert eps h ev (x # xs) =
     (let c = byY eps (eventKey h ev) (eventKey h x)
      in if c < 0 then ev # x # xs
         else if c = 0 then x # xs
         else x # lq_insert eps h ev xs)"

definition lq_pop :: "heap \<Rightarrow> addr list \<Rightarrow> (addr \<times> addr list) option" where
  "lq_pop h q = (case q of [] \<Rightarrow> None | x # xs \<Rightarrow> Some (x, xs))"

text \<open>
  Modelled from the spec: \<^verbatim>\<open>./sweep-status\<close> is not among the sources. The status
  holds the segments that cross the sweep line, from left to right by their \<open>x\<close> at the
  current point, ties broken by angle. Here it is a list, and none of its operations throws.
\<close>

definition xAt :: "heap \<Rightarrow> addr \<Rightarrow> addr \<Rightarrow> real" where
  "xAt h sg p =
     (let g = segments h sg; f = points h (seg_from g); t = points h (seg_to g); pt = points h p
      in if seg_dy g = 0 then max (px f) (min (px t) (px pt))
         else px f - (py f - py pt) / seg_dy g * seg_dx g)"

definition passesThrough :: "real \<Rightarrow> heap \<Rightarrow> addr \<Rightarrow> addr \<Rightarrow> bool" where
  "passesThrough eps h p sg =
     (let g = segments h sg; f = points h (seg_from g); pt = points h p
      in (if seg_dy g = 0 then \<bar>py pt - py f\<bar> < eps else True) \<and> \<bar>xAt h sg p - px pt\<bar> < eps)"

definition ls_findSegmentsWithPoint :: "real \<Rightarrow> heap \<Rightarrow> addr list \<Rightarrow> addr \<Rightarrow> string + addr list" where
  "ls_findSegmentsWithPoint eps h st p = Inr (filter (passesThrough eps h p) st)"

definition ls_before :: "real \<Rightarrow> heap \<Rightarrow> addr \<Rightarrow> addr \<Rightarrow> addr \<Rightarrow> bool" where
  "ls_before eps h p a b =
     (if \<bar>xAt h a p - xAt h b p\<bar> < eps
      then seg_angle (segments h a) < seg_angle (segments h b)
      else xAt h a p < xAt h b p)"

fun ls_insert1 :: "real \<Rightarrow> heap \<Rightarrow> addr \<Rightarrow> addr \<Rightarrow> addr list \<Rightarrow> addr list" where
  "ls_insert1 eps h p sg [] = [sg]"
| "ls_insert1 eps h p sg (x # xs) =
     (if ls_before eps h p sg x then sg # x # xs else x # ls_insert1 eps h p sg xs)"

definition ls_insertSegments ::
  "real \<Rightarrow> heap \<Rightarrow> addr list \<Rightarrow> addr list \<Rightarrow> addr \<Rightarrow> addr list \<Rightarrow> string + addr list" where
  "ls_insertSegments eps h ins ups p st = Inr (fold (ls_insert1 eps h p) (ins @ ups) st)"

definition absent :: "addr list \<Rightarrow> addr \<Rightarrow> bool" where
  "absent xs sg \<longleftrightarrow> sg \<notin> set xs"

definition present :: "addr list \<Rightarrow> addr \<Rightarrow> bool" where
  "present xs sg \<longleftrightarrow> sg \<in> set xs"

definition ls_deleteSegments ::
  "heap \<Rightarrow> addr list \<Rightarrow> addr list \<Rightarrow> addr \<Rightarrow> addr list \<Rightarrow> string + addr list" where
  "ls_deleteSegments h lows ins p st = Inr (filter (absent (lows @ ins)) st)"

definition leftOf :: "heap \<Rightarrow> addr \<Rightarrow> addr \<Rightarrow> bool" where
  "leftOf h p sg \<longleftrightarrow> xAt h sg p < px (points h p)"

definition rightOf :: "heap \<Rightarrow> addr \<Rightarrow> addr \<Rightarrow> bool" where
  "rightOf h p sg \<longleftrightarrow> px (points h p) < xAt h sg p"

definition ls_getLeftRightPoint ::
  "heap \<Rightarrow> addr list \<Rightarrow> addr \<Rightarrow> string + (addr option \<times> addr option)" where
  "ls_getLeftRightPoint h st p = Inr (find (leftOf h p) (rev st), find (rightOf h p) st)"

definition lastOption :: "'a list \<Rightarrow> 'a option" where
  "lastOption xs = (case rev xs of [] \<Rightarrow> None | x # _ \<Rightarrow> Some x)"

definition ls_getBoundarySegments ::
  "heap \<Rightarrow> addr list \<Rightarrow> addr list \<Rightarrow> addr list \<Rightarrow> string + boundary" where
  "ls_getBoundarySegments h st ups ins =
     Inr \<lparr>beforeLeft = lastOption (takeWhile (absent (ups @ ins)) st),
          bLeft = find (present (ups @ ins)) st,
          bRight = find (present (ups @ ins)) (rev st),
          afterRight = lastOption (takeWhile (absent (ups @ ins)) (rev st))\<rparr>"

text \<open>
  Modelled from the spec: the constant \<^verbatim>\<open>EPS\<close> of \<^verbatim>\<open>./geom\<close> is not among the sources;
  the spec fixes one tolerance and not its value. The environment below takes \<open>1e-9\<close>.
\<close>

definition listEnv :: "(addr list, addr list) env" where
  "listEnv =
     \<lparr>EPS = 1 / 1000000000,
      angle = pseudoAngle,
      intersectSegments = lineIntersection,
      createEventQueue = [],
      q_isEmpty = lq_isEmpty,
      q_pop = lq_pop,
      q_find = lq_find (1 / 1000000000),
      q_insert = lq_insert (1 / 1000000000),
      createSweepStatus = [],
      findSegmentsWithPoint = ls_findSegmentsWithPoint (1 / 1000000000),
      deleteSegments = ls_deleteSegments,
      insertSegments = ls_insertSegments (1 / 1000000000),
      getLeftRightPoint = ls_getLeftRightPoint,
      getBoundarySegments = ls_getBoundarySegments\<rparr>"

text \<open>
  Options, and inputs: a store holding the caller's points and segments. \<open>inputSegments\<close>
  gives every segment two points of its own; \<open>polyline\<close> is a chain of two segments
  through one shared point object. \<open>stopAtFirst\<close> is a handler that answers true and
  \<open>throwing\<close> one that throws; both count their invocations. \<open>shallowSwept\<close> is a driver
  after three calls of \<open>step\<close>.
\<close>

definition defaultOptions :: "unit options" where
  "defaultOptions = \<lparr>onFound = None, onError = None\<rparr>"

definition stopAtFirst :: "nat options" where
  "stopAtFirst = \<lparr>onFound = Some (\<lambda>h p segs n. (Returned True, Suc n)), onError = None\<rparr>"


definition emptyHeap :: heap where
  "emptyHeap =
     \<lparr>points = (\<lambda>_. \<lparr>px = 0, py = 0\<rparr>),
      segments = (\<lambda>_. \<lparr>seg_from = 0, seg_to = 0, seg_dy = 0, seg_dx = 0, seg_angle = 0\<rparr>),
      arrays = (\<lambda>_. []),
      events = (\<lambda>_. \<lparr>ev_point = 0, ev_from = None, ev_isReported = False\<rparr>),
      fresh = 1\<rparr>"

fun inputSegments :: "((real \<times> real) \<times> (real \<times> real)) list \<Rightarrow> heap \<Rightarrow> addr list \<times> heap" where
  "inputSegments [] h = ([], h)"
| "inputSegments (((fx, fy), (tx, ty)) # rest) h =
     (let (f, h1) = newPoint \<lparr>px = fx, py = fy\<rparr> h;
          (t, h2) = newPoint \<lparr>px = tx, py = ty\<rparr> h1;
          sg = fresh h2;
          h3 = h2\<lparr>segments := (segments h2)(sg := \<lparr>seg_from = f, seg_to = t, seg_dy = 0, seg_dx = 0, seg_angle = 0\<rparr>),
                 fresh := Suc sg\<rparr>;
          (sgs, h4) = inputSegments rest h3
      in (sg # sgs, h4))"

definition emptyDriver :: "heap \<Rightarrow> (addr list, addr list, unit) driver" where
  "emptyDriver h = snd (isect listEnv defaultOptions () h [])"

definition observeRun ::
  "('r outcome \<times> ('q, 'st, 'u) driver) option
     \<Rightarrow> ('r outcome \<times> (addr \<times> addr option) list \<times> (addr \<times> addr option \<times> addr list \<times> bool outcome) list) option" where
  "observeRun x = map_option (\<lambda>(r, s). (r, results s, calls s)) x"

definition crossing :: "addr list \<times> heap" where
  "crossing = inputSegments [((0, 10), (10, 0)), ((0, 0), (10, 10))] emptyHeap"

definition crossingDriver :: "(addr list, addr list, unit) driver" where
  "crossingDriver = snd (isect listEnv defaultOptions () (snd crossing) (fst crossing))"

definition lambdaShape :: "addr list \<times> heap" where
  "lambdaShape = inputSegments [((5, 10), (0, 0)), ((5, 10), (10, 0)), ((0, 5), (10, 5))] emptyHeap"

definition lambdaDriver :: "(addr list, addr list, unit) driver" where
  "lambdaDriver = snd (isect listEnv defaultOptions () (snd lambdaShape) (fst lambdaShape))"

definition lambdaStop :: "(addr list, addr list, nat) driver" where
  "lambdaStop = snd (isect listEnv stopAtFirst 0 (snd lambdaShape) (fst lambdaShape))"

definition polyline :: heap where
  "polyline =
     (let (p0, h1) = newPoint \<lparr>px = 0, py = 1\<rparr> emptyHeap;
          (p1, h2) = newPoint \<lparr>px = 1, py = 1\<rparr> h1;
          (p2, h3) = newPoint \<lparr>px = 2, py = 1000001 / 1000000\<rparr> h2
      in h3\<lparr>segments := (segments h3)
                (4 := \<lparr>seg_from = p0, seg_to = p1, seg_dy = 0, seg_dx = 0, seg_angle = 0\<rparr>,
                 5 := \<lparr>seg_from = p1, seg_to = p2, seg_dy = 0, seg_dx = 0, seg_angle = 0\<rparr>),
            fresh := 6\<rparr>)"

definition polylineDriver :: "(addr list, addr list, unit) driver" where
  "polylineDriver = snd (addSegment listEnv defaultOptions 4 (emptyDriver polyline))"

definition nearPoint :: "addr list \<times> heap" where
  "nearPoint = inputSegments [((1, 5), (1 + 1 / 2000000000, 5))] emptyHeap"

definition nearPointDriver :: "(addr list, addr list, unit) driver" where
  "nearPointDriver = snd (isect listEnv defaultOptions () (snd nearPoint) (fst nearPoint))"

definition dot :: "addr list \<times> heap" where
  "dot = inputSegments [((2, 3), (2, 3))] emptyHeap"

definition twice :: "addr list \<times> heap" where
  "twice = inputSegments [((0, 10), (10, 0)), ((10, 0), (0, 10))] emptyHeap"

definition onceDriver :: "(addr list, addr list, unit) driver" where
  "onceDriver = snd (addSegment listEnv defaultOptions 3 (emptyDriver (snd twice)))"


definition shallow :: "addr list \<times> heap" where
  "shallow =
     inputSegments
       [((- 9999, 18 / 1000000 - 6 / 10000000000), (10001, - (18 / 1000000) - 6 / 10000000000)),
        ((10001, 18 / 1000000 - 6 / 10000000000), (- 9999, - (18 / 1000000) - 6 / 10000000000)),
        ((4 / 5, - (15 / 10000000000)), (4 / 5, - (15 / 10000000000)))] emptyHeap"

definition shallowDriver :: "(addr list, addr list, unit) driver" where
  "shallowDriver = snd (isect listEnv defaultOptions () (snd shallow) (fst shallow))"

definition shallowSwept :: "(addr list, addr list, unit) driver" where
  "shallowSwept =
     snd (step listEnv defaultOptions
       (snd (step listEnv defaultOptions
         (snd (step listEnv defaultOptions shallowDriver)))))"

section \<open>Properties of the comparison helpers\<close>

lemma num_lt_irrefl: "num_lt a a \<noteq> Some True"
  by (cases a) simp_all

lemma js_gt_number: "js_gt sem (Prim (PNum a)) (Prim (PNum a)) = Returned False"
  by (simp add: js_gt_def isLessThan_def numerics_lt_def num_lt_irrefl)

lemma bothComparable_throws:
  "bothComparable sem lhs rhs = Thrown err \<longleftrightarrow>
     err = ''TypeError'' \<and> (nullish lhs \<or> comparableFlag sem lhs = Returned True \<and> nullish rhs)"
  by (cases lhs; cases rhs)
     (auto simp: bothComparable_def comparableFlag_def nullish_def split: bool.splits if_splits)

lemma bothComparable_False:
  "bothComparable sem lhs rhs = Returned False \<longleftrightarrow>
     \<not> nullish lhs \<and> (comparableFlag sem lhs = Returned True \<longrightarrow> \<not> nullish rhs)
     \<and> \<not> (comparableFlag sem lhs = Returned True \<and> comparableFlag sem rhs = Returned True)"
  by (cases lhs; cases rhs)
     (auto simp: bothComparable_def comparableFlag_def nullish_def split: bool.splits if_splits)

text \<open>
  Claim C10, as amended. When reading the flag does not throw, that is when \<open>lhs\<close> is
  neither \<^verbatim>\<open>null\<close> nor \<^verbatim>\<open>undefined\<close> and, if \<open>lhs\<close> carries the flag, neither is \<open>rhs\<close>,
  and the two operands do not both carry the flag, \<open>greaterThan_fn lhs rhs\<close> does what
  the expression \<^verbatim>\<open>lhs > lhs\<close> does, whatever \<open>rhs\<close> is: it returns the value of that
  expression, or throws what evaluating it throws. When \<open>lhs\<close> is \<^verbatim>\<open>null\<close> or
  \<^verbatim>\<open>undefined\<close>, or \<open>lhs\<close> carries the flag and \<open>rhs\<close> is \<^verbatim>\<open>null\<close> or \<^verbatim>\<open>undefined\<close>, it
  throws a \<^verbatim>\<open>TypeError\<close>. On two plain numbers it returns false.
\<close>

theorem greaterThan_unflagged:
  "(\<not> nullish lhs \<and> (comparableFlag sem lhs = Returned True \<longrightarrow> \<not> nullish rhs)
      \<and> \<not> (comparableFlag sem lhs = Returned True \<and> comparableFlag sem rhs = Returned True)
      \<longrightarrow> greaterThan_fn sem lhs rhs = js_gt sem lhs lhs)
   \<and> (nullish lhs \<or> comparableFlag sem lhs = Returned True \<and> nullish rhs
      \<longrightarrow> greaterThan_fn sem lhs rhs = Thrown ''TypeError'')
   \<and> greaterThan_fn sem (Prim (PNum a)) (Prim (PNum b)) = Returned False"
proof (intro conjI impI)
  assume "\<not> nullish lhs \<and> (comparableFlag sem lhs = Returned True \<longrightarrow> \<not> nullish rhs)
      \<and> \<not> (comparableFlag sem lhs = Returned True \<and> comparableFlag sem rhs = Returned True)"
  then have f: "bothComparable sem lhs rhs = Returned False"
    unfolding bothComparable_False .
  then show "greaterThan_fn sem lhs rhs = js_gt sem lhs lhs"
    by (simp add: greaterThan_fn_def)
next
  assume "nullish lhs \<or> comparableFlag sem lhs = Returned True \<and> nullish rhs"
  then have "bothComparable sem lhs rhs = Thrown ''TypeError''"
    by (simp add: bothComparable_throws)
  then show "greaterThan_fn sem lhs rhs = Thrown ''TypeError''"
    by (simp add: greaterThan_fn_def)
next
  have "bothComparable sem (Prim (PNum a)) (Prim (PNum b)) = Returned False"
    by (simp add: bothComparable_def comparableFlag_def nullish_def)
  then show "greaterThan_fn sem (Prim (PNum a)) (Prim (PNum b)) = Returned False"
    by (simp add: greaterThan_fn_def js_gt_number)
qed

text \<open>
  The claim as first stated, for every pair of operands that do not both carry the flag,
  fails on \<^verbatim>\<open>null\<close> and \<^verbatim>\<open>undefined\<close>: \<^verbatim>\<open>null > null\<close> is false, and so is a box compared
  with itself, but the helper throws before it gets there.
\<close>

theorem nullish_operand_counterexample:
  "comparableFlag boxed (Prim PNull) \<noteq> Returned True
   \<and> js_gt boxed (Prim PNull) (Prim PNull) = Returned False
   \<and> greaterThan_fn boxed (Prim PNull) (Prim (PNum (Fin 1))) = Thrown ''TypeError''
   \<and> comparableFlag boxed (Obj 2) = Returned True
   \<and> comparableFlag boxed (Prim PUndef) \<noteq> Returned True
   \<and> js_gt boxed (Obj 2) (Obj 2) = Returned False
   \<and> greaterThan_fn boxed (Obj 2) (Prim PUndef) = Thrown ''TypeError''"
  by (simp add: greaterThan_fn_def bothComparable_def comparableFlag_def nullish_def js_gt_def
      isLessThan_def numerics_lt_def boxed_def)

theorem greaterThan_unflagged_witness:
  "\<not> nullish (Prim (PNum (Fin 5)) :: real jsval)
   \<and> comparableFlag boxed (Prim (PNum (Fin 5))) = Returned False
   \<and> greaterThan_fn boxed (Prim (PNum (Fin 5))) (Prim (PNum (Fin 3)))
       = js_gt boxed (Prim (PNum (Fin 5))) (Prim (PNum (Fin 5)))
   \<and> greaterThan_fn boxed (Prim (PNum (Fin 5))) (Prim (PNum (Fin 3))) = Returned False
   \<and> js_gt boxed (Prim (PNum (Fin 5))) (Prim (PNum (Fin 3))) = Returned True
   \<and> \<not> nullish (Obj 5 :: real jsval) \<and> comparableFlag boxed (Obj 5) = Returned True
   \<and> \<not> nullish (Prim (PStr ''a'') :: real jsval)
   \<and> comparableFlag boxed (Prim (PStr ''a'')) = Returned False
   \<and> greaterThan_fn boxed (Obj 5) (Prim (PStr ''a'')) = js_gt boxed (Obj 5) (Obj 5)
   \<and> nullish (Prim PUndef :: real jsval)
   \<and> greaterThan_fn boxed (Prim PUndef) (Prim (PNum (Fin 3))) = Thrown ''TypeError''"
  using greaterThan_unflagged [of "Prim (PNum (Fin 5))" boxed "Prim (PNum (Fin 3))" "Fin 5" "Fin 3"]
    greaterThan_unflagged [of "Obj 5" boxed "Prim (PStr ''a'')" "Fin 5" "Fin 3"]
    greaterThan_unflagged [of "Prim PUndef" boxed "Prim (PNum (Fin 3))" "Fin 5" "Fin 3"]
  by (simp add: nullish_def comparableFlag_def js_gt_def isLessThan_def numerics_lt_def boxed_def)

section \<open>Properties of the sweep driver\<close>

subsection \<open>Classification of the segments at an event point\<close>

lemma classified_step:
  assumes "classified s0 s ls its"
  shows "classified s0 (addLowerOrInterior e lp sg s)
           (ls @ lowerAt (EPS e) (heap s0) lp [sg]) (its @ interiorAt (EPS e) (heap s0) lp [sg])"
  using assms
  by (auto simp: classified_def addLowerOrInterior_def lowerAt_def interiorAt_def Let_def
        newArray_def push_def samePoint_def split: option.splits)

lemma lowerAt_Cons:
  "ls @ lowerAt eps h lp (sg # found) = (ls @ lowerAt eps h lp [sg]) @ lowerAt eps h lp found"
  by (simp add: lowerAt_def)

lemma interiorAt_Cons:
  "its @ interiorAt eps h lp (sg # found) = (its @ interiorAt eps h lp [sg]) @ interiorAt eps h lp found"
  by (simp add: interiorAt_def)

lemma classified_fold:
  "classified s0 s ls its \<Longrightarrow>
   classified s0 (fold (addLowerOrInterior e lp) found s)
     (ls @ lowerAt (EPS e) (heap s0) lp found) (its @ interiorAt (EPS e) (heap s0) lp found)"
proof (induction found arbitrary: s ls its)
  case Nil
  then show ?case by (simp add: lowerAt_def interiorAt_def)
next
  case (Cons sg found)
  have "classified s0 (addLowerOrInterior e lp sg s)
           (ls @ lowerAt (EPS e) (heap s0) lp [sg]) (its @ interiorAt (EPS e) (heap s0) lp [sg])"
    using Cons.prems by (rule classified_step)
  from Cons.IH [OF this] show ?case
    unfolding lowerAt_Cons [of ls _ _ _ sg found] interiorAt_Cons [of its _ _ _ sg found] by simp
qed

subsection \<open>What the update and the probes leave alone\<close>

lemma probeFrame_refl: "probeFrame s s"
  by (simp add: probeFrame_def)

lemma probeFrame_trans: "probeFrame s s' \<Longrightarrow> probeFrame s' s'' \<Longrightarrow> probeFrame s s''"
  by (auto simp: probeFrame_def)

lemma probeFrame_status: "probeFrame s s' \<Longrightarrow> probeFrame (s\<lparr>sweepStatus := st\<rparr>) s'"
  by (simp add: probeFrame_def)

lemma findNewEvent_frame: "findNewEvent e opts l r p s = (res, s') \<Longrightarrow> probeFrame s s'"
  by (auto simp: findNewEvent_def probeFrame_def Let_def newPoint_def newSweepEvent_def
        roundNearZero_def setX_def setY_def reportError_def defaultErrorReporter_def
      split: option.splits if_splits prod.splits)

lemma probeNewEvents_frame:
  assumes "probeNewEvents e opts p lp upper it lo uLength iLength s = (res, s')"
  shows "probeFrame s s'"
proof -
  have st: "\<And>st. probeFrame s (s\<lparr>sweepStatus := st\<rparr>)"
    by (simp add: probeFrame_def)
  show ?thesis
    using assms
    by (auto simp: probeNewEvents_def Let_def probeFrame_refl st
          split: sum.splits option.splits prod.splits outcome.splits if_splits
          dest!: findNewEvent_frame
          intro: probeFrame_trans [OF st] probeFrame_trans [OF probeFrame_trans [OF st]])
qed

subsection \<open>The report at an event point\<close>

lemma reportIntersection_effect:
  assumes "reportIntersection opts p segs s = (stop, s')"
  shows "calls s' = calls s @ [(p, segs, arrayOf (heap s) segs, stop)] \<and> heap s' = heap s
         \<and> lower s' = lower s \<and> interior s' = interior s \<and> eventQueue s' = eventQueue s
         \<and> sweepStatus s' = sweepStatus s \<and> lastPoint s' = lastPoint s
         \<and> (onFound opts \<noteq> None \<longrightarrow> results s' = results s)
         \<and> (onFound opts = None \<longrightarrow>
               stop = Returned False \<and> results s' = results s @ [(p, segs)] \<and> user s' = user s)"
  using assms
  by (auto simp: reportIntersection_def defaultIntersectionReporter_def Let_def
      split: option.splits prod.splits)

lemma classified_start:
  "classified (s\<lparr>lastPoint := Some lp, lower := None, interior := None\<rparr>)
              (s\<lparr>lastPoint := Some lp, lower := None, interior := None\<rparr>) [] []"
  by (simp add: classified_def)

lemma probeNewEvents_not_True:
  "probeNewEvents e opts p lp upper it lo uLength iLength s = (r, s') \<Longrightarrow> r \<noteq> Returned True"
  by (auto simp: probeNewEvents_def Let_def
      split: sum.splits option.splits prod.splits outcome.splits if_splits)



subsection \<open>The record of calls, and the two loops\<close>

lemma reportAndProbe_log:
  assumes res: "reportAndProbe e opts p lp upper it lo s4 = (r, s')"
  shows "((calls s' = calls s4 \<and> r \<noteq> Returned True)
          \<or> (\<exists>pt a xs ans. calls s' = calls s4 @ [(pt, a, xs, ans)]
                \<and> (ans = Returned True \<longleftrightarrow> r = Returned True)
                \<and> (\<forall>err. ans = Thrown err \<longrightarrow> r = Thrown err)))
         \<and> (onFound opts \<noteq> None \<longrightarrow> results s' = results s4)
         \<and> (onFound opts = None \<longrightarrow> r \<noteq> Returned True)
         \<and> (r = Returned True \<longrightarrow> sweepStatus s' = sweepStatus s4 \<and> eventQueue s' = eventQueue s4)
         \<and> segments (heap s') = segments (heap s4) \<and> fresh (heap s4) \<le> fresh (heap s')
         \<and> (\<forall>x<fresh (heap s4). points (heap s') x = points (heap s4) x)"
proof -
  define uLength where "uLength = length (arrays (heap s4) upper)"
  define iLength where "iLength = length (arrays (heap s4) it)"
  define lLength where "lLength = length (arrays (heap s4) lo)"
  let ?cond = "1 < uLength + iLength + lLength \<or> (uLength = 0 \<and> lLength = 0 \<and> 0 < iLength)"
  show ?thesis
  proof (cases ?cond)
    case False
    then have pr: "probeNewEvents e opts p lp upper it lo uLength iLength s4 = (r, s')"
      using res
      by (auto simp add: reportAndProbe_def Let_def uLength_def iLength_def lLength_def split: if_splits)
    from probeNewEvents_frame [OF pr] probeNewEvents_not_True [OF pr]
    show ?thesis by (simp add: probeFrame_def)
  next
    case True
    define h5 where "h5 = setEvent p (\<lambda>v. v\<lparr>ev_isReported := True\<rparr>) (heap s4)"
    obtain lu h6 where u1: "union_arr (Some lo) (Some upper) h5 = (lu, h6)"
      by (cases "union_arr (Some lo) (Some upper) h5") simp
    obtain ilu h7 where u2: "union_arr (Some it) lu h6 = (ilu, h7)"
      by (cases "union_arr (Some it) lu h6") simp
    obtain stop s5 where rp: "reportIntersection opts lp ilu (s4\<lparr>heap := h7\<rparr>) = (stop, s5)"
      by (cases "reportIntersection opts lp ilu (s4\<lparr>heap := h7\<rparr>)") simp
    have un: "(case stop of
                 Thrown err \<Rightarrow> (Thrown err, s5)
               | Returned True \<Rightarrow> (Returned True, s5)
               | Returned False \<Rightarrow> probeNewEvents e opts p lp upper it lo uLength iLength s5) = (r, s')"
      using res True u1 u2 rp unfolding uLength_def iLength_def lLength_def
      by (auto simp add: reportAndProbe_def Let_def h5_def)
    have h7: "segments h7 = segments (heap s4)" "points h7 = points (heap s4)"
             "fresh (heap s4) \<le> fresh h7"
      using u1 u2
      by (auto simp: union_arr_def newArray_def h5_def setEvent_def Let_def split: option.splits)
    note eff = reportIntersection_effect [OF rp]
    show ?thesis
    proof (cases stop)
      case (Thrown err)
      then have "r = Thrown err" "s' = s5" using un by simp_all
      then show ?thesis using eff Thrown h7 by auto
    next
      case (Returned b)
      show ?thesis
      proof (cases b)
        case True
        then have "r = Returned True" "s' = s5" using un Returned by simp_all
        then show ?thesis using eff True Returned h7 by auto
      next
        case False
        then have pr: "probeNewEvents e opts p lp upper it lo uLength iLength s5 = (r, s')"
          using un Returned by simp
        from probeNewEvents_frame [OF pr] probeNewEvents_not_True [OF pr] eff False Returned h7
        show ?thesis by (auto simp: probeFrame_def)
      qed
    qed
  qed
qed

lemma handleEventPoint_log:
  assumes res: "handleEventPoint e opts p s = (r, s')"
  shows "((calls s' = calls s \<and> r \<noteq> Returned True)
          \<or> (\<exists>pt a xs ans. calls s' = calls s @ [(pt, a, xs, ans)]
                \<and> (ans = Returned True \<longleftrightarrow> r = Returned True)
                \<and> (\<forall>err. ans = Thrown err \<longrightarrow> r = Thrown err)))
         \<and> (onFound opts \<noteq> None \<longrightarrow> results s' = results s)
         \<and> (onFound opts = None \<longrightarrow> r \<noteq> Returned True)
         \<and> (r = Returned True \<longrightarrow> sweepStatus s' = sweepStatus s \<and> eventQueue s' = eventQueue s)
         \<and> segments (heap s') = segments (heap s) \<and> fresh (heap s) \<le> fresh (heap s')
         \<and> (\<forall>x<fresh (heap s). points (heap s') x = points (heap s) x)"
proof -
  define lp where "lp = ev_point (events (heap s) p)"
  define s2 where "s2 = s\<lparr>lastPoint := Some lp, lower := None, interior := None\<rparr>"
  show ?thesis
  proof (cases "findSegmentsWithPoint e (heap s) (sweepStatus s) lp")
    case (Inl err)
    then have "r = Thrown err" "s' = s2"
      using res by (simp_all add: handleEventPoint_def Let_def lp_def s2_def)
    then show ?thesis by (simp add: s2_def)
  next
    case (Inr found)
    define s3 where "s3 = fold (addLowerOrInterior e lp) found s2"
    define lo where "lo = (case lower s3 of None \<Rightarrow> EMPTY | Some a \<Rightarrow> a)"
    define it where "it = (case interior s3 of None \<Rightarrow> EMPTY | Some a \<Rightarrow> a)"
    define upper where "upper = (case ev_from (events (heap s) p) of Some a \<Rightarrow> a | None \<Rightarrow> EMPTY)"
    define s4 where "s4 = s3\<lparr>lower := Some lo, interior := Some it\<rparr>"
    have "classified s2 s2 [] []"
      unfolding s2_def by (rule classified_start)
    from classified_fold [OF this, of e lp found]
    have cl: "classified s2 s3 (lowerAt (EPS e) (heap s2) lp found) (interiorAt (EPS e) (heap s2) lp found)"
      by (simp add: s3_def)
    have k4: "calls s4 = calls s" "results s4 = results s" "sweepStatus s4 = sweepStatus s"
             "eventQueue s4 = eventQueue s" "segments (heap s4) = segments (heap s)"
             "points (heap s4) = points (heap s)" "fresh (heap s) \<le> fresh (heap s4)"
      using cl by (simp_all add: classified_def s4_def s2_def)
    have "reportAndProbe e opts p lp upper it lo s4 = (r, s')"
      using res Inr
      unfolding handleEventPoint_def Let_def lp_def s2_def s3_def lo_def it_def upper_def s4_def
      by simp
    from reportAndProbe_log [OF this] k4 show ?thesis
      by auto
  qed
qed

lemma run_loop_log:
  "run_loop n e opts s = Some (r, s') \<Longrightarrow>
   \<exists>cs. calls s' = calls s @ cs \<and> (\<forall>c\<in>set (butlast cs). \<not> answered c)
        \<and> (r = Returned None \<longleftrightarrow> cs \<noteq> [] \<and> answered (last cs))
        \<and> (onFound opts \<noteq> None \<longrightarrow> results s' = results s)"
proof (induction n arbitrary: s)
  case 0
  then show ?case by simp
next
  case (Suc n)
  show ?case
  proof (cases "q_isEmpty e (eventQueue s)")
    case True
    with Suc.prems show ?thesis by auto
  next
    case False
    note nonempty = this
    show ?thesis
    proof (cases "q_pop e (heap s) (eventQueue s)")
      case None
      with Suc.prems nonempty show ?thesis by auto
    next
      case (Some pq)
      obtain eventPoint q' where pq: "pq = (eventPoint, q')" by (cases pq)
      define s1 where "s1 = s\<lparr>eventQueue := q'\<rparr>"
      obtain r1 s2 where h: "handleEventPoint e opts eventPoint s1 = (r1, s2)"
        by (cases "handleEventPoint e opts eventPoint s1")
      note lg = handleEventPoint_log [OF h]
      have c1: "calls s1 = calls s" "results s1 = results s" by (simp_all add: s1_def)
      from lg c1 obtain cs0 where cs0:
        "calls s2 = calls s @ cs0" "cs0 = [] \<and> r1 \<noteq> Returned True \<or> (\<exists>c. cs0 = [c] \<and> answered c = (r1 = Returned True))"
        by (auto simp: answered_def)
      have rs: "onFound opts \<noteq> None \<longrightarrow> results s2 = results s"
        using lg c1 by simp
      show ?thesis
      proof (cases r1)
        case (Thrown err)
        then have "r = Thrown err" "s' = s2"
          using Suc.prems nonempty Some pq h by (simp_all add: s1_def)
        with cs0 rs Thrown show ?thesis by auto
      next
        case (Returned b)
        show ?thesis
        proof (cases b)
          case True
          then have "r = Returned None" "s' = s2"
            using Suc.prems nonempty Some pq h Returned by (simp_all add: s1_def)
          with cs0 rs Returned True show ?thesis by auto
        next
          case False
          then have "run_loop n e opts s2 = Some (r, s')"
            using Suc.prems nonempty Some pq h Returned by (simp add: s1_def)
          from Suc.IH [OF this] obtain cs where cs:
            "calls s' = calls s2 @ cs" "\<forall>c\<in>set (butlast cs). \<not> answered c"
            "r = Returned None \<longleftrightarrow> cs \<noteq> [] \<and> answered (last cs)"
            "onFound opts \<noteq> None \<longrightarrow> results s' = results s2"
            by blast
          have f0: "\<forall>c\<in>set cs0. \<not> answered c"
            using cs0(2) Returned False by auto
          have "calls s' = calls s @ (cs0 @ cs)"
            using cs(1) cs0(1) by simp
          moreover have "\<forall>c\<in>set (butlast (cs0 @ cs)). \<not> answered c"
            using f0 cs(2) by (auto simp: butlast_append dest: in_set_butlastD)
          moreover have "r = Returned None \<longleftrightarrow> cs0 @ cs \<noteq> [] \<and> answered (last (cs0 @ cs))"
            using f0 cs(3) by (cases "cs = []") auto
          moreover have "onFound opts \<noteq> None \<longrightarrow> results s' = results s"
            using cs(4) rs by simp
          ultimately show ?thesis by blast
        qed
      qed
    qed
  qed
qed

lemma run_step_equiv:
  "onFound opts = None \<Longrightarrow> run_loop n e opts s = map_option runReturn (step_loop n e opts s)"
proof (induction n arbitrary: s)
  case 0
  then show ?case by simp
next
  case (Suc n)
  show ?case
  proof (cases "q_isEmpty e (eventQueue s)")
    case True
    then show ?thesis by (simp add: step_def runReturn_def)
  next
    case False
    note nonempty = this
    show ?thesis
    proof (cases "q_pop e (heap s) (eventQueue s)")
      case None
      with nonempty show ?thesis by (simp add: step_def runReturn_def)
    next
      case (Some pq)
      obtain eventPoint q' where pq: "pq = (eventPoint, q')" by (cases pq)
      obtain r1 s2 where h: "handleEventPoint e opts eventPoint (s\<lparr>eventQueue := q'\<rparr>) = (r1, s2)"
        by (cases "handleEventPoint e opts eventPoint (s\<lparr>eventQueue := q'\<rparr>)")
      from handleEventPoint_log [OF h] Suc.prems have nt: "r1 \<noteq> Returned True" by simp
      show ?thesis
      proof (cases r1)
        case (Thrown err)
        with nonempty Some pq h show ?thesis by (simp add: step_def runReturn_def)
      next
        case (Returned b)
        with nt have "r1 = Returned False" by simp
        with nonempty Some pq h Suc.IH [OF Suc.prems, of s2] show ?thesis
          by (simp add: step_def)
      qed
    qed
  qed
qed




subsection \<open>Ingestion\<close>

lemma canonicalize_parts:
  fixes e :: "('q, 'st) env" and sg :: addr and h :: heap
  defines "H \<equiv> canonicalize e sg h"
  shows "seg_dy (segments H sg) = py (points H (seg_from (segments H sg))) - py (points H (seg_to (segments H sg)))"
    and "seg_dx (segments H sg) = px (points H (seg_from (segments H sg))) - px (points H (seg_to (segments H sg)))"
    and "seg_angle (segments H sg) = angle e (seg_dy (segments H sg)) (seg_dx (segments H sg))"
    and "py (points H (seg_to (segments H sg))) < py (points H (seg_from (segments H sg)))
         \<or> py (points H (seg_from (segments H sg))) = py (points H (seg_to (segments H sg)))
           \<and> px (points H (seg_from (segments H sg))) \<le> px (points H (seg_to (segments H sg)))"
    and "{seg_from (segments H sg), seg_to (segments H sg)} = {seg_from (segments h sg), seg_to (segments h sg)}"
    and "\<And>x. x \<noteq> sg \<Longrightarrow> segments H x = segments h x"
    and "\<And>x. x \<noteq> seg_from (segments h sg) \<Longrightarrow> x \<noteq> seg_to (segments h sg) \<Longrightarrow> points H x = points h x"
    and "arrays H = arrays h" and "events H = events h" and "fresh H = fresh h"
proof -
  define from0 where "from0 = seg_from (segments h sg)"
  define to0 where "to0 = seg_to (segments h sg)"
  define h1 where "h1 = roundNearZero (EPS e) from0 h"
  define h2 where "h2 = roundNearZero (EPS e) to0 h1"
  define dy where "dy = py (points h2 from0) - py (points h2 to0)"
  define h3 where "h3 = (if \<bar>dy\<bar> < 1 / 100000
                then setSegment sg (\<lambda>g. g\<lparr>seg_dy := 0\<rparr>) (setY from0 (py (points h2 to0)) h2)
                else h2)"
  define swap where "swap \<longleftrightarrow> (py (points h3 from0) < py (points h3 to0)
                  \<or> (py (points h3 from0) = py (points h3 to0) \<and> px (points h3 from0) > px (points h3 to0)))"
  define h4 where "h4 = (if swap then setSegment sg (\<lambda>g. g\<lparr>seg_from := to0, seg_to := from0\<rparr>) h3 else h3)"
  define "from" where "from = (if swap then to0 else from0)"
  define to where "to = (if swap then from0 else to0)"
  define sdy where "sdy = py (points h4 from) - py (points h4 to)"
  define sdx where "sdx = px (points h4 from) - px (points h4 to)"
  have c: "canonicalize e sg h =
      setSegment sg (\<lambda>g. g\<lparr>seg_dy := sdy, seg_dx := sdx, seg_angle := angle e sdy sdx\<rparr>) h4"
    unfolding canonicalize_def Let_def sdx_def sdy_def to_def from_def h4_def swap_def h3_def dy_def
      h2_def h1_def to0_def from0_def ..
  have r1: "segments h1 = segments h" "arrays h1 = arrays h" "events h1 = events h" "fresh h1 = fresh h"
           "\<And>x. x \<noteq> from0 \<Longrightarrow> points h1 x = points h x"
    by (simp_all add: h1_def roundNearZero_def setX_def setY_def Let_def)
  have r2: "segments h2 = segments h" "arrays h2 = arrays h" "events h2 = events h" "fresh h2 = fresh h"
           "\<And>x. x \<noteq> from0 \<Longrightarrow> x \<noteq> to0 \<Longrightarrow> points h2 x = points h x"
    using r1 by (simp_all add: h2_def roundNearZero_def setX_def setY_def Let_def)
  have r3: "seg_from (segments h3 sg) = from0" "seg_to (segments h3 sg) = to0"
           "\<And>x. x \<noteq> sg \<Longrightarrow> segments h3 x = segments h x"
           "arrays h3 = arrays h" "events h3 = events h" "fresh h3 = fresh h"
           "\<And>x. x \<noteq> from0 \<Longrightarrow> x \<noteq> to0 \<Longrightarrow> points h3 x = points h x"
    using r2 by (simp_all add: h3_def setSegment_def setY_def from0_def to0_def)
  have r4: "points h4 = points h3" "arrays h4 = arrays h" "events h4 = events h" "fresh h4 = fresh h"
           "\<And>x. x \<noteq> sg \<Longrightarrow> segments h4 x = segments h x"
           "seg_from (segments h4 sg) = from" "seg_to (segments h4 sg) = to"
    using r3 by (simp_all add: h4_def setSegment_def from_def to_def)
  have c': "H = setSegment sg (\<lambda>g. g\<lparr>seg_dy := sdy, seg_dx := sdx, seg_angle := angle e sdy sdx\<rparr>) h4"
    using c by (simp add: H_def)
  have g: "segments H sg = \<lparr>seg_from = from, seg_to = to, seg_dy = sdy, seg_dx = sdx,
                         seg_angle = angle e sdy sdx\<rparr>"
    using r4(6,7) by (simp add: c' setSegment_def)
  have p: "points H = points h3"
    using r4(1) by (simp add: c' setSegment_def)
  show "seg_dy (segments H sg) = py (points H (seg_from (segments H sg))) - py (points H (seg_to (segments H sg)))"
    by (simp add: g p sdy_def r4(1))
  show "seg_dx (segments H sg) = px (points H (seg_from (segments H sg))) - px (points H (seg_to (segments H sg)))"
    by (simp add: g p sdx_def r4(1))
  show "seg_angle (segments H sg) = angle e (seg_dy (segments H sg)) (seg_dx (segments H sg))"
    by (simp add: g)
  show "py (points H (seg_to (segments H sg))) < py (points H (seg_from (segments H sg)))
         \<or> py (points H (seg_from (segments H sg))) = py (points H (seg_to (segments H sg)))
           \<and> px (points H (seg_from (segments H sg))) \<le> px (points H (seg_to (segments H sg)))"
    unfolding g p by (auto simp: from_def to_def swap_def)
  show "{seg_from (segments H sg), seg_to (segments H sg)} = {seg_from (segments h sg), seg_to (segments h sg)}"
    unfolding g by (auto simp: from_def to_def from0_def to0_def)
  show "\<And>x. x \<noteq> sg \<Longrightarrow> segments H x = segments h x"
    using r4(5) by (simp add: c' setSegment_def)
  show "\<And>x. x \<noteq> seg_from (segments h sg) \<Longrightarrow> x \<noteq> seg_to (segments h sg) \<Longrightarrow> points H x = points h x"
    using r3(7) by (simp add: p from0_def to0_def)
  show "arrays H = arrays h" "events H = events h" "fresh H = fresh h"
    using r4(2-4) by (simp_all add: c' setSegment_def)
qed

lemma canonicalize_canonical:
  assumes "\<not> isPoint (canonicalize e sg h) sg"
  shows "canonical e (canonicalize e sg h) sg"
  using assms canonicalize_parts(1-4) [of e sg h]
  by (auto simp add: canonical_def isPoint_def Let_def)

lemma canonicalize_other:
  assumes "sg' \<noteq> sg" "\<not> sharesEndpoint h sg' sg"
  shows "canonical e (canonicalize e sg h) sg' = canonical e h sg'"
  using assms canonicalize_parts(6) [of sg' sg e h]
    canonicalize_parts(7) [of "seg_from (segments h sg')" h sg e]
    canonicalize_parts(7) [of "seg_to (segments h sg')" h sg e]
  by (simp add: canonical_def sharesEndpoint_def Let_def)

lemma thrown_simps [simp]: "thrown (Thrown err)" "\<not> thrown (Returned x)"
  by (simp_all add: thrown_def)

lemma addSegment_heap:
  "points (heap (snd (addSegment e opts sg s))) = points (canonicalize e sg (heap s))
   \<and> segments (heap (snd (addSegment e opts sg s))) = segments (canonicalize e sg (heap s))
   \<and> fresh (heap s) \<le> fresh (heap (snd (addSegment e opts sg s)))"
  using canonicalize_parts(10) [of e sg "heap s"]
  by (auto simp: addSegment_def Let_def newArray_def newSweepEvent_def push_def setEvent_def
      split: option.splits prod.splits if_splits outcome.splits dest!: reportIntersection_effect)


lemma addSegment_point:
  fixes e :: "('q, 'st) env" and s :: "('q, 'st, 'u) driver" and sg :: addr
  defines "h5 \<equiv> canonicalize e sg (heap s)"
  assumes pt: "isPoint h5 sg"
  shows "fst (addSegment e opts sg s) = Returned ()
         \<and> eventQueue (snd (addSegment e opts sg s))
           = q_insert e (heap (snd (addSegment e opts sg s))) (fresh (heap s)) (eventQueue s)
         \<and> events (heap (snd (addSegment e opts sg s))) (fresh (heap s))
           = \<lparr>ev_point = seg_to (segments h5 sg), ev_from = None, ev_isReported = False\<rparr>
         \<and> (\<forall>x. x \<noteq> fresh (heap s) \<longrightarrow> events (heap (snd (addSegment e opts sg s))) x = events (heap s) x)
         \<and> arrays (heap (snd (addSegment e opts sg s))) = arrays (heap s)
         \<and> calls (snd (addSegment e opts sg s)) = calls s
         \<and> results (snd (addSegment e opts sg s)) = results s
         \<and> sweepStatus (snd (addSegment e opts sg s)) = sweepStatus s"
proof -
  have k: "arrays h5 = arrays (heap s)" "events h5 = events (heap s)" "fresh h5 = fresh (heap s)"
    using canonicalize_parts(8-10) [of e sg "heap s"] by (simp_all add: h5_def)
  have "addSegment e opts sg s =
      (let (event, h6) = newSweepEvent (seg_to (segments h5 sg)) None h5
       in (Returned (), s\<lparr>heap := h6, eventQueue := q_insert e h6 event (eventQueue s)\<rparr>))"
    using pt by (simp add: addSegment_def Let_def h5_def [symmetric] split: option.splits)
  then show ?thesis
    using k by (simp add: newSweepEvent_def)
qed

subsection \<open>Probes, and the orientation under later operations\<close>

lemma roundNearZero_point:
  "points (roundNearZero eps a h) = (points h)(a := snapped eps (points h a))"
  by (auto simp: roundNearZero_def snapped_def setX_def setY_def Let_def)

lemma findNewEvent_queue:
  assumes res: "findNewEvent e opts left right p s = (r, s')"
      and ex: "ev_point (events (heap s) p) < fresh (heap s)"
  shows "case intersectionOf e left right s of
           None \<Rightarrow> eventQueue s' = eventQueue s
         | Some q \<Rightarrow>
             if py q \<le> py (sweepPoint s p) + EPS e
                \<and> (\<bar>py (sweepPoint s p) - py q\<bar> < EPS e \<longrightarrow> px (sweepPoint s p) < px q)
                \<and> unscheduled e s q
             then eventQueue s' = q_insert e (heap s') (Suc (fresh (heap s))) (eventQueue s)
                  \<and> events (heap s') (Suc (fresh (heap s)))
                      = \<lparr>ev_point = fresh (heap s), ev_from = None, ev_isReported = False\<rparr>
                  \<and> points (heap s') (fresh (heap s)) = snapped (EPS e) q
                  \<and> (py (snapped (EPS e) q) \<le> py (sweepPoint s p) + EPS e
                      \<or> py (snapped (EPS e) q) = 0 \<and> - 2 * EPS e < py (sweepPoint s p))
             else eventQueue s' = eventQueue s"
proof (cases "intersectionOf e left right s")
  case None
  then show ?thesis
    using res
    by (auto simp: intersectionOf_def findNewEvent_def split: option.splits)
next
  case (Some q)
  then obtain l r' where lr: "left = Some l" "right = Some r'" "intersectSegments e (heap s) l r' = Some q"
    by (auto simp: intersectionOf_def split: option.splits)
  define i where "i = fresh (heap s)"
  define h1 where "h1 = snd (newPoint q (heap s))"
  define h2 where "h2 = roundNearZero (EPS e) i h1"
  have h1: "points h1 = (points (heap s))(i := q)" "events h1 = events (heap s)" "fresh h1 = Suc i"
    by (simp_all add: h1_def newPoint_def i_def)
  have h2: "points h2 = (points (heap s))(i := snapped (EPS e) q)" "events h2 = events (heap s)"
           "fresh h2 = Suc i"
    using h1 by (simp_all add: h2_def roundNearZero_point) (simp_all add: roundNearZero_def setX_def setY_def Let_def)
  show ?thesis
  proof (cases "py q \<le> py (sweepPoint s p) + EPS e
                \<and> (\<bar>py (sweepPoint s p) - py q\<bar> < EPS e \<longrightarrow> px (sweepPoint s p) < px q)")
    case False
    then have "eventQueue s' = eventQueue s"
      using res lr ex
      by (auto simp: findNewEvent_def Let_def newPoint_def sweepPoint_def split: if_splits)
    with Some False show ?thesis by auto
  next
    case True
    note lies = this
    show ?thesis
    proof (cases "q_find e h2 (eventQueue s) i")
      case (Some cur)
      then have "eventQueue s' = eventQueue s"
        using res lr ex
        by (auto simp: findNewEvent_def Let_def newPoint_def sweepPoint_def h2_def h1_def i_def
              reportError_def defaultErrorReporter_def split: if_splits option.splits prod.splits)
      with Some \<open>intersectionOf e left right s = Some q\<close> show ?thesis
        by (simp add: unscheduled_def h2_def h1_def i_def)
    next
      case None
      have s': "s' = s\<lparr>heap := snd (newSweepEvent i None h2),
                       eventQueue := q_insert e (snd (newSweepEvent i None h2)) (Suc i) (eventQueue s)\<rparr>"
        using res lr lies None h2(3) ex
        by (auto simp: findNewEvent_def Let_def newPoint_def sweepPoint_def h2_def h1_def i_def
              newSweepEvent_def split: if_splits)
      have bound: "py (snapped (EPS e) q) \<le> py (sweepPoint s p) + EPS e
                      \<or> py (snapped (EPS e) q) = 0 \<and> - 2 * EPS e < py (sweepPoint s p)"
        using lies by (auto simp: snapped_def)
      show ?thesis
        using None \<open>intersectionOf e left right s = Some q\<close> lies bound h2
        by (simp add: unscheduled_def h2_def [symmetric] h1_def [symmetric] i_def [symmetric] s'
              newSweepEvent_def)
    qed
  qed
qed

lemma keeps_canonical:
  assumes "segments h' = segments h" "\<forall>x<fresh h. points h' x = points h x" "fresh h \<le> fresh h'"
      and "allocated h sg"
  shows "canonical e h' sg = canonical e h sg \<and> allocated h' sg"
  using assms by (auto simp: canonical_def allocated_def Let_def)

lemma step_canonical:
  assumes "canonical e (heap s) sg" "allocated (heap s) sg"
  shows "canonical e (heap (snd (step e opts s))) sg \<and> allocated (heap (snd (step e opts s))) sg"
proof (cases "\<not> q_isEmpty e (eventQueue s) \<and> q_pop e (heap s) (eventQueue s) \<noteq> None")
  case False
  then show ?thesis using assms by (auto simp: step_def split: option.splits)
next
  case True
  then obtain eventPoint q' where pq: "q_pop e (heap s) (eventQueue s) = Some (eventPoint, q')"
    by auto
  obtain r1 s2 where h: "handleEventPoint e opts eventPoint (s\<lparr>eventQueue := q'\<rparr>) = (r1, s2)"
    by (cases "handleEventPoint e opts eventPoint (s\<lparr>eventQueue := q'\<rparr>)")
  have "heap (snd (step e opts s)) = heap s2"
    using True pq h by (auto simp: step_def split: outcome.splits)
  moreover from handleEventPoint_log [OF h] assms(2)
  have "canonical e (heap s2) sg = canonical e (heap s) sg \<and> allocated (heap s2) sg"
    by (intro keeps_canonical) simp_all
  ultimately show ?thesis using assms(1) by simp
qed

lemma run_loop_canonical:
  "run_loop n e opts s = Some (r, s') \<Longrightarrow> canonical e (heap s) sg \<Longrightarrow> allocated (heap s) sg
   \<Longrightarrow> canonical e (heap s') sg \<and> allocated (heap s') sg"
proof (induction n arbitrary: s)
  case 0
  then show ?case by simp
next
  case (Suc n)
  show ?case
  proof (cases "\<not> q_isEmpty e (eventQueue s) \<and> q_pop e (heap s) (eventQueue s) \<noteq> None")
    case False
    then show ?thesis using Suc.prems by (auto split: if_splits option.splits)
  next
    case True
    then obtain eventPoint q' where pq: "q_pop e (heap s) (eventQueue s) = Some (eventPoint, q')"
      by auto
    obtain r1 s2 where h: "handleEventPoint e opts eventPoint (s\<lparr>eventQueue := q'\<rparr>) = (r1, s2)"
      by (cases "handleEventPoint e opts eventPoint (s\<lparr>eventQueue := q'\<rparr>)")
    from handleEventPoint_log [OF h] Suc.prems(3)
    have k: "canonical e (heap s2) sg = canonical e (heap s) sg \<and> allocated (heap s2) sg"
      by (intro keeps_canonical) simp_all
    show ?thesis
    proof (cases "r1 = Returned False")
      case True
      then have "run_loop n e opts s2 = Some (r, s')"
        using Suc.prems(1) \<open>\<not> q_isEmpty e (eventQueue s) \<and> q_pop e (heap s) (eventQueue s) \<noteq> None\<close> pq h
        by simp
      from Suc.IH [OF this] k Suc.prems(2) show ?thesis by simp
    next
      case False
      then have "s' = s2"
        using Suc.prems(1) \<open>\<not> q_isEmpty e (eventQueue s) \<and> q_pop e (heap s) (eventQueue s) \<noteq> None\<close> pq h
        by (cases r1) (auto split: bool.splits)
      with k Suc.prems(2) show ?thesis by simp
    qed
  qed
qed

lemma addSegment_canonical_other:
  assumes "canonical e (heap s) sg" "sg' \<noteq> sg" "\<not> sharesEndpoint (heap s) sg sg'"
  shows "canonical e (heap (snd (addSegment e opts sg' s))) sg"
proof -
  from addSegment_heap [of e opts sg' s]
  have "canonical e (heap (snd (addSegment e opts sg' s))) sg = canonical e (canonicalize e sg' (heap s)) sg"
    by (simp add: canonical_def)
  also have "\<dots> = canonical e (heap s) sg"
    using assms(2,3) by (intro canonicalize_other) auto
  finally show ?thesis using assms(1) by simp
qed

lemma addSegment_canonical:
  assumes "\<not> isPoint (heap (snd (addSegment e opts sg s))) sg"
  shows "canonical e (heap (snd (addSegment e opts sg s))) sg"
proof -
  from addSegment_heap [of e opts sg s]
  have eq: "points (heap (snd (addSegment e opts sg s))) = points (canonicalize e sg (heap s))"
           "segments (heap (snd (addSegment e opts sg s))) = segments (canonicalize e sg (heap s))"
    by simp_all
  then have "\<not> isPoint (canonicalize e sg (heap s)) sg"
    using assms by (simp add: isPoint_def)
  from canonicalize_canonical [OF this] show ?thesis
    by (simp add: canonical_def eq)
qed

lemma addSegment_isPoint:
  "isPoint (heap (snd (addSegment e opts sg s))) sg \<longleftrightarrow>
     px (points (heap (snd (addSegment e opts sg s))) (seg_from (segments (heap (snd (addSegment e opts sg s))) sg)))
       = px (points (heap (snd (addSegment e opts sg s))) (seg_to (segments (heap (snd (addSegment e opts sg s))) sg)))
     \<and> py (points (heap (snd (addSegment e opts sg s))) (seg_from (segments (heap (snd (addSegment e opts sg s))) sg)))
       = py (points (heap (snd (addSegment e opts sg s))) (seg_to (segments (heap (snd (addSegment e opts sg s))) sg)))"
proof -
  from addSegment_heap [of e opts sg s]
  have eq: "points (heap (snd (addSegment e opts sg s))) = points (canonicalize e sg (heap s))"
           "segments (heap (snd (addSegment e opts sg s))) = segments (canonicalize e sg (heap s))"
    by simp_all
  from canonicalize_parts(1,2) [of e sg "heap s"] show ?thesis
    by (auto simp: isPoint_def eq)
qed

lemma addSegment_allocated:
  assumes "allocated (heap s) sg"
  shows "allocated (heap (snd (addSegment e opts sg' s))) sg"
proof -
  from addSegment_heap [of e opts sg' s]
  have eq: "segments (heap (snd (addSegment e opts sg' s))) = segments (canonicalize e sg' (heap s))"
    and fr: "fresh (heap s) \<le> fresh (heap (snd (addSegment e opts sg' s)))"
    by simp_all
  show ?thesis
  proof (cases "sg' = sg")
    case True
    from canonicalize_parts(5) [of e sg "heap s"] assms
    have "seg_from (segments (canonicalize e sg (heap s)) sg) < fresh (heap s)
          \<and> seg_to (segments (canonicalize e sg (heap s)) sg) < fresh (heap s)"
      by (auto simp: allocated_def doubleton_eq_iff)
    moreover from True eq
    have "segments (heap (snd (addSegment e opts sg s))) = segments (canonicalize e sg (heap s))"
      by simp
    ultimately show ?thesis
      using True fr by (auto simp: allocated_def)
  next
    case False
    then have "segments (canonicalize e sg' (heap s)) sg = segments (heap s) sg"
      by (intro canonicalize_parts(6)) simp
    with assms fr show ?thesis
      by (simp add: allocated_def eq)
  qed
qed

subsection \<open>Runs on concrete inputs\<close>

text \<open>
  The simplifier evaluates the driver on a concrete input when it computes the value bound
  by a \<open>let\<close> before it looks at the body.
\<close>

lemmas heap_defs = setX_def setY_def newArray_def push_def newPoint_def newSweepEvent_def
  setSegment_def setEvent_def samePoint_def roundNearZero_def union_arr_def byY_def arrayOf_def
lemmas list_defs = pseudoAngle_def lineIntersection_def eventKey_def sameKey_def lq_isEmpty_def
  lq_find_def lq_pop_def xAt_def passesThrough_def ls_findSegmentsWithPoint_def ls_before_def
  ls_insertSegments_def absent_def present_def ls_deleteSegments_def leftOf_def rightOf_def
  ls_getLeftRightPoint_def lastOption_def ls_getBoundarySegments_def listEnv_def
  defaultOptions_def emptyHeap_def
lemmas driver_defs = isect_def addNext_def addSegment_def isPoint_def canonicalize_def handleEventPoint_def
  reportAndProbe_def probeNewEvents_def findNewEvent_def addLowerOrInterior_def
  reportIntersection_def defaultIntersectionReporter_def reportError_def defaultErrorReporter_def
  step_def EMPTY_def


lemma step_loop_numeral:
  "step_loop (numeral k) e opts s =
     (case step e opts s of
        (Thrown err, s') \<Rightarrow> Some (Thrown err, s')
      | (Returned True, s') \<Rightarrow> step_loop (pred_numeral k) e opts s'
      | (Returned False, s') \<Rightarrow> Some (Returned (), s'))"
  by (simp add: numeral_eq_Suc)

lemma crossing_steps:
  "observeRun (step_loop 10 listEnv defaultOptions crossingDriver)
   = Some (Returned (), [(13, Some 17)], [(13, Some 17, [3, 6], Returned False)])"
  by (simp add: crossingDriver_def crossing_def driver_defs heap_defs list_defs Let_def
      observeRun_def step_loop_numeral cong: let_weak_cong)

lemma crossing_obs:
  "(let s = crossingDriver in (canonical listEnv (heap s) 3, allocated (heap s) 3)) = (True, True)"
  by (simp add: crossingDriver_def crossing_def driver_defs heap_defs list_defs canonical_def
      allocated_def Let_def cong: let_weak_cong)


lemma lambdaDriver_first:
  "(let x = handleEventPoint listEnv defaultOptions 11 (lambdaDriver\<lparr>eventQueue := [15, 16, 12, 13]\<rparr>)
    in (fst x, sweepStatus (snd x), calls (snd x)))
   = (Returned False, [3, 6], [(1, Some 18, [3, 6], Returned False)])"
  by (simp add: lambdaDriver_def lambdaShape_def driver_defs heap_defs list_defs Let_def
      cong: let_weak_cong)

lemma lambdaStop_obs:
  "(let s = lambdaStop
    in (upperAt (heap s) 11, lineIntersection (heap s) 9 3, lineIntersection (heap s) 9 6,
        calls s, results s, sweepStatus s, q_pop listEnv (heap s) (eventQueue s),
        q_isEmpty listEnv (eventQueue s)))
   = ([3, 6], Some \<lparr>px = 5 / 2, py = 5\<rparr>, Some \<lparr>px = 15 / 2, py = 5\<rparr>, [], [], [],
      Some (11, [15, 16, 12, 13]), False)"
  by (simp add: lambdaStop_def lambdaShape_def stopAtFirst_def driver_defs heap_defs list_defs
      upperAt_def Let_def cong: let_weak_cong)

lemma lambdaStop_first:
  "(let x = handleEventPoint listEnv stopAtFirst 11 (lambdaStop\<lparr>eventQueue := [15, 16, 12, 13]\<rparr>)
    in (fst x, sweepStatus (snd x), eventQueue (snd x), calls (snd x), results (snd x)))
   = (Returned True, [], [15, 16, 12, 13], [(1, Some 18, [3, 6], Returned True)], [])"
  by (simp add: lambdaStop_def lambdaShape_def stopAtFirst_def driver_defs heap_defs list_defs
      Let_def cong: let_weak_cong)


lemma polyline_obs:
  "(let s = polylineDriver; x = addSegment listEnv defaultOptions 5 s; s' = snd x
    in (canonical listEnv (heap s) 4, isPoint (heap s) 4, allocated (heap s) 4,
        sharesEndpoint (heap s) 4 5, canonical listEnv (heap s') 4, isPoint (heap s') 4,
        points (heap s') (seg_from (segments (heap s') 4)),
        points (heap s') (seg_to (segments (heap s') 4)), fst x))
   = (True, False, True, True, False, False, \<lparr>px = 0, py = 1\<rparr>, \<lparr>px = 1, py = 1000001 / 1000000\<rparr>,
      Returned ())"
  by (simp add: polylineDriver_def emptyDriver_def polyline_def driver_defs heap_defs list_defs
      canonical_def allocated_def sharesEndpoint_def Let_def cong: let_weak_cong)

lemma nearPoint_obs:
  "(let s = nearPointDriver
    in (samePoint (EPS listEnv) (heap s) (seg_from (segments (heap s) 3)) (seg_to (segments (heap s) 3)),
        isPoint (heap s) 3, eventQueue s, upperAt (heap s) 5, calls s))
   = (True, False, [5], [3], [])"
  by (simp add: nearPointDriver_def nearPoint_def driver_defs heap_defs list_defs
      upperAt_def Let_def cong: let_weak_cong)

lemma dot_obs:
  "(let h5 = canonicalize listEnv 3 (snd dot) in (isPoint h5 3, fresh (snd dot))) = (True, 4)"
  by (simp add: dot_def driver_defs heap_defs list_defs Let_def cong: let_weak_cong)

lemma once_obs:
  "(let s = onceDriver; h5 = canonicalize listEnv 6 (heap s)
    in (isPoint h5 6, q_find listEnv h5 (eventQueue s) (seg_from (segments h5 6)),
        ev_from (events h5 8), arrays h5 7,
        samePoint (EPS listEnv) h5 (seg_to (segments h5 3)) (seg_to (segments h5 6)),
        canonical listEnv (heap s) 3, sharesEndpoint (heap s) 3 6))
   = (False, Some \<lparr>nd_data = 8, nd_isReported = False\<rparr>, Some 7, [3], True, True, False)"
  by (simp add: onceDriver_def emptyDriver_def twice_def driver_defs heap_defs list_defs
      canonical_def sharesEndpoint_def Let_def cong: let_weak_cong)


lemma shallowSwept_obs:
  "(let s = shallowSwept; x = step listEnv defaultOptions s;
        y = findNewEvent listEnv defaultOptions (Some 6) (Some 3) 16 s
    in (eventQueue s, sweepStatus s, results s, fresh (heap s),
        fst x, eventQueue (snd x), eventKey (heap (snd x)) 21,
        map_option (points (heap (snd x))) (lastPoint (snd x)), sweepPoint s 16,
        fst y, eventQueue (snd y), points (heap (snd y)) 20,
        intersectionOf listEnv (Some 6) (Some 3) s,
        ev_point (events (heap s) 16) < fresh (heap s),
        unscheduled listEnv s \<lparr>px = 1, py = - (3 / 5000000000)\<rparr>))
   = ([16, 15, 12], [3, 6], [], 20,
      Returned True, [21, 15, 12], \<lparr>px = 1, py = 0\<rparr>,
      Some \<lparr>px = 4 / 5, py = - (3 / 2000000000)\<rparr>, \<lparr>px = 4 / 5, py = - (3 / 2000000000)\<rparr>,
      Returned (), [21, 16, 15, 12], \<lparr>px = 1, py = 0\<rparr>,
      Some \<lparr>px = 1, py = - (3 / 5000000000)\<rparr>, True, True)"
  by (simp add: shallowSwept_def shallowDriver_def shallow_def driver_defs heap_defs list_defs
      sweepPoint_def intersectionOf_def unscheduled_def Let_def cong: let_weak_cong)

section \<open>The claims\<close>





text \<open>
  Claim C3. With the default handler, calling \<open>step\<close> until it answers false and calling
  \<open>run\<close> once end in the same driver state, hence with the same results list; where one
  throws, the other throws the same error in the same state, and where one needs more than
  \<open>n\<close> events so does the other.
\<close>

theorem run_is_repeated_step:
  "onFound opts = None \<Longrightarrow> run_loop n e opts s = map_option runReturn (step_loop n e opts s)"
  by (rule run_step_equiv)

theorem run_is_repeated_step_witness:
  "onFound defaultOptions = None
   \<and> run_loop 10 listEnv defaultOptions crossingDriver
       = map_option runReturn (step_loop 10 listEnv defaultOptions crossingDriver)
   \<and> observeRun (step_loop 10 listEnv defaultOptions crossingDriver)
       = Some (Returned (), [(13, Some 17)], [(13, Some 17, [3, 6], Returned False)])
   \<and> observeRun (run_loop 10 listEnv defaultOptions crossingDriver)
       = Some (Returned (Some [(13, Some 17)]), [(13, Some 17)],
               [(13, Some 17, [3, 6], Returned False)])"
proof -
  have d: "onFound defaultOptions = None"
    by (simp add: defaultOptions_def)
  note eq = run_is_repeated_step [OF d, of 10 listEnv crossingDriver]
  from crossing_steps obtain sf where
    sf: "step_loop 10 listEnv defaultOptions crossingDriver = Some (Returned (), sf)"
        "results sf = [(13, Some 17)]" "calls sf = [(13, Some 17, [3, 6], Returned False)]"
    by (auto simp: observeRun_def)
  show ?thesis
    using d eq crossing_steps sf by (simp add: observeRun_def runReturn_def)
qed




text \<open>
  Claim C5, as amended. When the callback answers truthy at an event, \<open>handleEventPoint\<close>
  returns true at once and the remaining work for that event point is skipped: no segment
  is removed from or inserted into the status and no new event is probed for, so status and
  schedule are what they were when the event was popped.
\<close>

theorem truthy_answer_skips_rest:
  assumes "handleEventPoint e opts p s = (r, s')"
      and "calls s' = calls s @ [c]" and "answered c"
  shows "r = Returned True \<and> sweepStatus s' = sweepStatus s \<and> eventQueue s' = eventQueue s"
  using handleEventPoint_log [OF assms(1)] assms(2,3)
  by (auto simp: answered_def)

text \<open>
  The claim as first stated fails: at the first event of the three segments two segments
  start, and after the truthy answer the status is still empty, where the default handler
  leaves both segments in it.
\<close>

theorem rest_completed_counterexample:
  "q_pop listEnv (heap lambdaStop) (eventQueue lambdaStop) = Some (11, [15, 16, 12, 13])
   \<and> fst (handleEventPoint listEnv stopAtFirst 11 (lambdaStop\<lparr>eventQueue := [15, 16, 12, 13]\<rparr>))
       = Returned True
   \<and> calls (snd (handleEventPoint listEnv stopAtFirst 11 (lambdaStop\<lparr>eventQueue := [15, 16, 12, 13]\<rparr>)))
       = [(1, Some 18, [3, 6], Returned True)]
   \<and> upperAt (heap lambdaStop) 11 = [3, 6]
   \<and> sweepStatus (snd (handleEventPoint listEnv stopAtFirst 11 (lambdaStop\<lparr>eventQueue := [15, 16, 12, 13]\<rparr>)))
       = []
   \<and> sweepStatus (snd (handleEventPoint listEnv defaultOptions 11
                          (lambdaDriver\<lparr>eventQueue := [15, 16, 12, 13]\<rparr>))) = [3, 6]"
  using lambdaStop_first lambdaStop_obs lambdaDriver_first by (simp add: Let_def)

theorem truthy_answer_skips_rest_witness:
  "calls (snd (handleEventPoint listEnv stopAtFirst 11 (lambdaStop\<lparr>eventQueue := [15, 16, 12, 13]\<rparr>)))
     = calls (lambdaStop\<lparr>eventQueue := [15, 16, 12, 13]\<rparr>) @ [(1, Some 18, [3, 6], Returned True)]
   \<and> answered (1, Some 18, [3, 6], Returned True)
   \<and> fst (handleEventPoint listEnv stopAtFirst 11 (lambdaStop\<lparr>eventQueue := [15, 16, 12, 13]\<rparr>))
       = Returned True
   \<and> sweepStatus (snd (handleEventPoint listEnv stopAtFirst 11 (lambdaStop\<lparr>eventQueue := [15, 16, 12, 13]\<rparr>)))
       = sweepStatus lambdaStop
   \<and> eventQueue (snd (handleEventPoint listEnv stopAtFirst 11 (lambdaStop\<lparr>eventQueue := [15, 16, 12, 13]\<rparr>)))
       = [15, 16, 12, 13]"
proof -
  define s where "s = lambdaStop\<lparr>eventQueue := [15, 16, 12, 13]\<rparr>"
  have res: "handleEventPoint listEnv stopAtFirst 11 s
             = (fst (handleEventPoint listEnv stopAtFirst 11 s),
                snd (handleEventPoint listEnv stopAtFirst 11 s))"
    by simp
  have c: "calls (snd (handleEventPoint listEnv stopAtFirst 11 s))
             = calls s @ [(1, Some 18, [3, 6], Returned True)]"
    using lambdaStop_first lambdaStop_obs by (simp add: Let_def s_def)
  have a: "answered (1, Some 18, [3, 6], Returned True)"
    by (simp add: answered_def)
  from truthy_answer_skips_rest [OF res c a] c a show ?thesis
    unfolding s_def by simp
qed

text \<open>
  Claim C4, as amended. A probe \<open>findNewEvent left right p\<close> hands a new event to the
  schedule exactly when \<open>intersectSegments left right\<close> yields a point \<open>q\<close> with
  \<open>q.y \<le> p.y + EPS\<close>, with \<open>q.x > p.x\<close> whenever \<open>|p.y - q.y| < EPS\<close>, and with no event
  found at \<open>q\<close> after its near-zero coordinates were snapped to 0. The event carries the
  snapped point and no segment list. Before snapping the point lies at most \<open>EPS\<close> above the
  sweep position; snapping can lift it further, to 0, and then the sweep position is less
  than \<open>2 * EPS\<close> below it.
\<close>

theorem findNewEvent_schedules:
  assumes "findNewEvent e opts left right p s = (r, s')"
      and "ev_point (events (heap s) p) < fresh (heap s)"
  shows "case intersectionOf e left right s of
           None \<Rightarrow> eventQueue s' = eventQueue s
         | Some q \<Rightarrow>
             if py q \<le> py (sweepPoint s p) + EPS e
                \<and> (\<bar>py (sweepPoint s p) - py q\<bar> < EPS e \<longrightarrow> px (sweepPoint s p) < px q)
                \<and> unscheduled e s q
             then eventQueue s' = q_insert e (heap s') (Suc (fresh (heap s))) (eventQueue s)
                  \<and> events (heap s') (Suc (fresh (heap s)))
                      = \<lparr>ev_point = fresh (heap s), ev_from = None, ev_isReported = False\<rparr>
                  \<and> points (heap s') (fresh (heap s)) = snapped (EPS e) q
                  \<and> (py (snapped (EPS e) q) \<le> py (sweepPoint s p) + EPS e
                      \<or> py (snapped (EPS e) q) = 0 \<and> - 2 * EPS e < py (sweepPoint s p))
             else eventQueue s' = eventQueue s"
  using assms by (rule findNewEvent_queue)

text \<open>
  The claim as first stated fails: two long, shallow segments cross at \<open>(1, -6e-10)\<close>, and
  a point lies between them at \<open>(0.8, -1.5e-9)\<close>. After three steps that point is the next
  event. Handling it probes the two segments, its neighbours, and schedules their crossing
  at the snapped point \<open>(1, 0)\<close>, which is above the sweep position by more than \<open>EPS\<close>.
\<close>

theorem event_above_sweep_counterexample:
  "eventQueue shallowSwept = [16, 15, 12]
   \<and> sweepPoint shallowSwept 16 = \<lparr>px = 4 / 5, py = - (3 / 2000000000)\<rparr>
   \<and> sweepStatus shallowSwept = [3, 6]
   \<and> intersectionOf listEnv (Some 6) (Some 3) shallowSwept = Some \<lparr>px = 1, py = - (3 / 5000000000)\<rparr>
   \<and> fst (step listEnv defaultOptions shallowSwept) = Returned True
   \<and> eventQueue (snd (step listEnv defaultOptions shallowSwept)) = [21, 15, 12]
   \<and> eventKey (heap (snd (step listEnv defaultOptions shallowSwept))) 21 = \<lparr>px = 1, py = 0\<rparr>
   \<and> py (sweepPoint shallowSwept 16) + EPS listEnv < 0"
  using shallowSwept_obs by (simp add: Let_def listEnv_def)

theorem findNewEvent_schedules_witness:
  "ev_point (events (heap shallowSwept) 16) < fresh (heap shallowSwept)
   \<and> intersectionOf listEnv (Some 6) (Some 3) shallowSwept = Some \<lparr>px = 1, py = - (3 / 5000000000)\<rparr>
   \<and> - (3 / 5000000000) \<le> py (sweepPoint shallowSwept 16) + EPS listEnv
   \<and> px (sweepPoint shallowSwept 16) < 1
   \<and> unscheduled listEnv shallowSwept \<lparr>px = 1, py = - (3 / 5000000000)\<rparr>
   \<and> eventQueue (snd (findNewEvent listEnv defaultOptions (Some 6) (Some 3) 16 shallowSwept))
         = q_insert listEnv (heap (snd (findNewEvent listEnv defaultOptions (Some 6) (Some 3) 16 shallowSwept)))
             21 (eventQueue shallowSwept)
   \<and> points (heap (snd (findNewEvent listEnv defaultOptions (Some 6) (Some 3) 16 shallowSwept))) 20
         = snapped (EPS listEnv) \<lparr>px = 1, py = - (3 / 5000000000)\<rparr>"
proof -
  have res: "findNewEvent listEnv defaultOptions (Some 6) (Some 3) 16 shallowSwept
             = (fst (findNewEvent listEnv defaultOptions (Some 6) (Some 3) 16 shallowSwept),
                snd (findNewEvent listEnv defaultOptions (Some 6) (Some 3) 16 shallowSwept))"
    by simp
  have obs: "ev_point (events (heap shallowSwept) 16) < fresh (heap shallowSwept)"
            "intersectionOf listEnv (Some 6) (Some 3) shallowSwept = Some \<lparr>px = 1, py = - (3 / 5000000000)\<rparr>"
            "sweepPoint shallowSwept 16 = \<lparr>px = 4 / 5, py = - (3 / 2000000000)\<rparr>"
            "unscheduled listEnv shallowSwept \<lparr>px = 1, py = - (3 / 5000000000)\<rparr>"
            "fresh (heap shallowSwept) = 20"
    using shallowSwept_obs by (simp_all add: Let_def)
  have eps: "EPS listEnv = 1 / 1000000000"
    by (simp add: listEnv_def)
  from findNewEvent_schedules [OF res obs(1)] obs show ?thesis
    by (simp add: eps)
qed

text \<open>
  Claim C6, as amended. When \<open>addSegment\<close> returns or throws, the segment it was given,
  unless its endpoints coincide exactly, is oriented from its topmost, then leftmost
  endpoint: \<open>from.y > to.y\<close>, or \<open>from.y = to.y\<close> and \<open>from.x < to.x\<close>, with
  \<open>dy = from.y - to.y\<close>, \<open>dx = from.x - to.x\<close> and the angle computed from them. \<open>step\<close>
  and \<open>run\<close> keep this, and so does \<open>addSegment\<close> on any other segment that shares no
  endpoint object with it.
\<close>

theorem canonical_orientation:
  "(isPoint (heap (snd (addSegment e opts sg s))) sg \<longleftrightarrow>
      px (points (heap (snd (addSegment e opts sg s)))
            (seg_from (segments (heap (snd (addSegment e opts sg s))) sg)))
        = px (points (heap (snd (addSegment e opts sg s)))
               (seg_to (segments (heap (snd (addSegment e opts sg s))) sg)))
      \<and> py (points (heap (snd (addSegment e opts sg s)))
              (seg_from (segments (heap (snd (addSegment e opts sg s))) sg)))
        = py (points (heap (snd (addSegment e opts sg s)))
               (seg_to (segments (heap (snd (addSegment e opts sg s))) sg))))
   \<and> (\<not> isPoint (heap (snd (addSegment e opts sg s))) sg
        \<longrightarrow> canonical e (heap (snd (addSegment e opts sg s))) sg)
   \<and> (canonical e (heap s) sg \<and> allocated (heap s) sg \<longrightarrow>
         canonical e (heap (snd (step e opts s))) sg \<and> allocated (heap (snd (step e opts s))) sg
         \<and> (\<forall>r s'. run_loop n e opts s = Some (r, s') \<longrightarrow>
               canonical e (heap s') sg \<and> allocated (heap s') sg))
   \<and> (canonical e (heap s) sg \<and> sg' \<noteq> sg \<and> \<not> sharesEndpoint (heap s) sg sg' \<longrightarrow>
         canonical e (heap (snd (addSegment e opts sg' s))) sg)
   \<and> (allocated (heap s) sg \<longrightarrow> allocated (heap (snd (addSegment e opts sg' s))) sg)"
  using addSegment_isPoint [of e opts sg s] addSegment_canonical [of e opts sg s]
    step_canonical [of e s sg opts] run_loop_canonical [of n e opts s _ _ sg]
    addSegment_canonical_other [of e s sg sg' opts] addSegment_allocated [of s sg e opts sg']
  by blast

text \<open>
  The claim as first stated fails: of two segments through one shared point object, the
  first is horizontal from \<open>(0, 1)\<close> to \<open>(1, 1)\<close>, the second rises from \<open>(1, 1)\<close> by
  \<open>1e-6\<close>. Ingesting the second levels it by writing \<open>to.y\<close> into the shared point, which
  leaves the first with \<open>from.y < to.y\<close>.
\<close>

theorem canonical_forever_counterexample:
  "\<not> isPoint (heap polylineDriver) 4 \<and> canonical listEnv (heap polylineDriver) 4
   \<and> fst (addSegment listEnv defaultOptions 5 polylineDriver) = Returned ()
   \<and> \<not> canonical listEnv (heap (snd (addSegment listEnv defaultOptions 5 polylineDriver))) 4
   \<and> points (heap (snd (addSegment listEnv defaultOptions 5 polylineDriver)))
        (seg_from (segments (heap (snd (addSegment listEnv defaultOptions 5 polylineDriver))) 4))
       = \<lparr>px = 0, py = 1\<rparr>
   \<and> points (heap (snd (addSegment listEnv defaultOptions 5 polylineDriver)))
        (seg_to (segments (heap (snd (addSegment listEnv defaultOptions 5 polylineDriver))) 4))
       = \<lparr>px = 1, py = 1000001 / 1000000\<rparr>"
  using polyline_obs by (simp add: Let_def)

theorem canonical_orientation_witness:
  "\<not> isPoint (heap polylineDriver) 4 \<and> canonical listEnv (heap polylineDriver) 4
   \<and> canonical listEnv (heap crossingDriver) 3 \<and> allocated (heap crossingDriver) 3
   \<and> canonical listEnv (heap (snd (step listEnv defaultOptions crossingDriver))) 3
   \<and> (\<exists>sf. run_loop 10 listEnv defaultOptions crossingDriver
              = Some (Returned (Some [(13, Some 17)]), sf)
          \<and> canonical listEnv (heap sf) 3 \<and> allocated (heap sf) 3)
   \<and> canonical listEnv (heap onceDriver) 3 \<and> 6 \<noteq> (3::nat) \<and> \<not> sharesEndpoint (heap onceDriver) 3 6
   \<and> canonical listEnv (heap (snd (addSegment listEnv defaultOptions 6 onceDriver))) 3"
proof -
  have p: "\<not> isPoint (heap polylineDriver) 4"
    using polyline_obs by (simp add: Let_def)
  have c: "canonical listEnv (heap crossingDriver) 3" "allocated (heap crossingDriver) 3"
    using crossing_obs by (simp_all add: Let_def)
  have o: "canonical listEnv (heap onceDriver) 3" "\<not> sharesEndpoint (heap onceDriver) 3 6"
    using once_obs by (simp_all add: Let_def)
  have d: "onFound defaultOptions = None"
    by (simp add: defaultOptions_def)
  from crossing_steps obtain sf0 where
    sf0: "step_loop 10 listEnv defaultOptions crossingDriver = Some (Returned (), sf0)"
         "results sf0 = [(13, Some 17)]"
    by (auto simp: observeRun_def)
  have run: "run_loop 10 listEnv defaultOptions crossingDriver
             = Some (Returned (Some [(13, Some 17)]), sf0)"
    using run_step_equiv [OF d, of 10 listEnv crossingDriver] sf0 by (simp add: runReturn_def)
  from canonical_orientation [where s = "emptyDriver polyline" and e = listEnv
         and opts = defaultOptions and sg = 4 and n = 0 and sg' = 4]
       canonical_orientation [where s = crossingDriver and e = listEnv
         and opts = defaultOptions and sg = 3 and n = 10 and sg' = 3]
       canonical_orientation [where s = onceDriver and e = listEnv
         and opts = defaultOptions and sg = 3 and n = 0 and sg' = 6]
       p c o run
  show ?thesis
    by (simp add: polylineDriver_def [symmetric])
qed




text \<open>
  Claim C8, as amended. For a segment whose endpoints coincide exactly once the near-zero
  coordinates and a \<open>dy\<close> below \<open>1e-5\<close> have been snapped (\<open>dx = 0\<close> and \<open>dy = 0\<close>),
  \<open>addSegment\<close> raises nothing and hands the schedule exactly one new event, at that point
  and with no list of starting segments; no callback is invoked, and no other event and no
  array changes, so the segment enters no event's list and hence never the sweep status.
\<close>

theorem point_segment_single_event:
  fixes e :: "('q, 'st) env" and s :: "('q, 'st, 'u) driver" and sg :: addr
  defines "h5 \<equiv> canonicalize e sg (heap s)"
  assumes "isPoint h5 sg"
  shows "fst (addSegment e opts sg s) = Returned ()
         \<and> eventQueue (snd (addSegment e opts sg s))
           = q_insert e (heap (snd (addSegment e opts sg s))) (fresh (heap s)) (eventQueue s)
         \<and> events (heap (snd (addSegment e opts sg s))) (fresh (heap s))
           = \<lparr>ev_point = seg_to (segments h5 sg), ev_from = None, ev_isReported = False\<rparr>
         \<and> (\<forall>x. x \<noteq> fresh (heap s) \<longrightarrow> events (heap (snd (addSegment e opts sg s))) x = events (heap s) x)
         \<and> arrays (heap (snd (addSegment e opts sg s))) = arrays (heap s)
         \<and> calls (snd (addSegment e opts sg s)) = calls s
         \<and> results (snd (addSegment e opts sg s)) = results s
         \<and> sweepStatus (snd (addSegment e opts sg s)) = sweepStatus s"
  using assms(2) unfolding h5_def by (rule addSegment_point)

text \<open>
  The claim as first stated fails: the endpoints \<open>(1, 5)\<close> and \<open>(1 + 5e-10, 5)\<close> are the
  same point within tolerance, yet the segment is ingested as a segment, and the one event
  in the schedule carries it in its list of starting segments.
\<close>

theorem near_point_segment_counterexample:
  "samePoint (EPS listEnv) (heap nearPointDriver)
     (seg_from (segments (heap nearPointDriver) 3)) (seg_to (segments (heap nearPointDriver) 3))
   \<and> \<not> isPoint (heap nearPointDriver) 3
   \<and> eventQueue nearPointDriver = [5]
   \<and> upperAt (heap nearPointDriver) 5 = [3]"
  using nearPoint_obs by (simp add: Let_def)

theorem point_segment_single_event_witness:
  "isPoint (canonicalize listEnv 3 (heap (emptyDriver (snd dot)))) 3
   \<and> fst (addSegment listEnv defaultOptions 3 (emptyDriver (snd dot))) = Returned ()
   \<and> eventQueue (snd (addSegment listEnv defaultOptions 3 (emptyDriver (snd dot))))
       = q_insert listEnv (heap (snd (addSegment listEnv defaultOptions 3 (emptyDriver (snd dot))))) 4 []
   \<and> ev_from (events (heap (snd (addSegment listEnv defaultOptions 3 (emptyDriver (snd dot))))) 4) = None
   \<and> calls (snd (addSegment listEnv defaultOptions 3 (emptyDriver (snd dot)))) = []"
proof -
  have h: "heap (emptyDriver (snd dot)) = snd dot" "eventQueue (emptyDriver (snd dot)) = []"
          "calls (emptyDriver (snd dot)) = []"
    by (simp_all add: emptyDriver_def isect_def listEnv_def)
  have o: "isPoint (canonicalize listEnv 3 (heap (emptyDriver (snd dot)))) 3" "fresh (snd dot) = 4"
    using dot_obs by (simp_all add: Let_def h)
  from point_segment_single_event [OF o(1), of defaultOptions] o h show ?thesis
    by simp
qed

end
